theory Spec2Isabelle
  imports Main "HOL-Library.Sublist"
begin

section \<open>Generic operation dispatch of the array runtime (apply.cpp)\<close>

subsection \<open>Diagnostics\<close>

text \<open>The table \<open>op_names\<close>, indexed by the integer value of an \<open>ArrayOp\<close>.\<close>

definition op_names :: "string list" where
  "op_names =
    [''__neg__'', ''__invert__'', ''abs'', ''sqrt'', ''rcp'', ''rsqrt'', ''cbrt'',
     ''exp'', ''exp2'', ''log'', ''log2'',
     ''sin'', ''cos'', ''sincos'', ''tan'', ''asin'', ''acos'', ''atan'',
     ''sinh'', ''cosh'', ''sincosh'', ''tanh'', ''asinh'', ''acosh'', ''atanh'',
     ''erf'',
     ''__add__'', ''__sub__'', ''__mul__'', ''__truediv__'', ''__floordiv__'',
     ''__mod__'', ''__lshift__'', ''__rshift__'',
     ''minimum'', ''maximum'', ''atan2'',
     ''__and__'', ''__or__'', ''__xor__'',
     ''fma'', ''select'',
     ''all'', ''any'',
     ''__richcmp__'']"

text \<open>\<open>std::to_string\<close> on a non-negative length: its decimal digits.\<close>

definition digit_char :: "nat \<Rightarrow> char" where
  "digit_char d = ''0123456789'' ! d"

fun to_string :: "nat \<Rightarrow> string" where
  "to_string n = (if n < 10 then [digit_char n] else to_string (n div 10) @ [digit_char (n mod 10)])"

declare to_string.simps [simp del]

text \<open>
  \<open>raise_incompatible_size_error(sizes, N)\<close>: the loop over \<open>i < N\<close> appends the
  \<open>i\<close>-th size and a separator; the value is the message of the
  \<open>std::runtime_error\<close> that is thrown.
\<close>

definition size_sep :: "nat \<Rightarrow> nat \<Rightarrow> string" where
  "size_sep N i = (if i + 2 < N then '', '' else if i + 2 = N then '', and '' else [])"

definition raise_incompatible_size_error :: "nat list \<Rightarrow> string" where
  "raise_incompatible_size_error sizes =
     fold (\<lambda>i msg. msg @ to_string (sizes ! i) @ size_sep (length sizes) i)
          [0..<length sizes] ''invalid input array sizes ('' @ '')''"

text \<open>
  \<open>maxv\<close>: the alternative to \<open>std::max\<close> that also accepts a single argument. The
  template needs at least one argument; the empty list does not occur. The arguments
  are of the signed type \<open>Py_ssize_t\<close>: natural numbers where \<open>apply\<close> passes the
  lengths of arrays, integers where \<open>apply_tensor\<close> passes converted \<open>size_t\<close> values,
  which can be negative.
\<close>

fun maxv :: "'a::{linorder,zero} list \<Rightarrow> 'a" where
  "maxv [] = 0"
| "maxv [arg] = arg"
| "maxv (arg # args) = (let other = maxv args in if other > arg then other else arg)"


subsection \<open>Data model\<close>

text \<open>
  Python objects live in a store and are named by references; a reference is the
  identity that \<open>o[0].is(...)\<close> compares. The store only grows: a new instance takes
  the next free index. An array instance carries its type and the elements of its
  outermost dimension; a tensor instance carries its type, the reference of its flat
  array (\<open>tensor_array\<close>) and its shape vector (\<open>tensor_shape\<close>). Elements are values
  of an arbitrary type \<open>'v\<close>: what \<open>item\<close> returns and the nested operation consumes.
\<close>

type_synonym ref = nat
type_synonym tname = string

datatype 'v pyobj =
    ArrayObj tname "'v list"
  | TensorObj tname ref "nat list"

type_synonym 'v heap = "'v pyobj list"

fun type_of :: "'v pyobj \<Rightarrow> tname" where
  "type_of (ArrayObj t d) = t"
| "type_of (TensorObj t a sh) = t"

datatype ApplyMode = Normal | InPlace | Select | RichCompare

text \<open>The template parameter \<open>Slot\<close> is \<open>int\<close> (a type slot) or \<open>const char *\<close>
  (an attribute of the array module).\<close>

datatype slot = SlotInt int | SlotName string

definition Py_EQ :: int where "Py_EQ = 2"
definition Py_NE :: int where "Py_NE = 3"

text \<open>An entry of the per-operation table \<open>s[op]\<close>: one of the two sentinels, or a
  native kernel, which computes the elements of the result from the elements of the
  operands (and from the comparison in \<open>RichCompare\<close> mode).\<close>

datatype 'v impl =
    DRJIT_OP_NOT_IMPLEMENTED
  | DRJIT_OP_DEFAULT
  | Kernel "'v list list \<Rightarrow> int option \<Rightarrow> 'v list"

text \<open>The function that the fallback loop applies to the elements: a slot of the
  value type \<open>s.value\<close>, its rich comparison, or an attribute of the array module.\<close>

datatype pyfun = TypeSlot int | RichCmpSlot int | ModuleAttr string

text \<open>
  The supplement of an array type, as far as \<open>apply\<close> reads it. \<open>shape0\<close> is
  \<open>s.shape[0]\<close>, with \<open>None\<close> for \<open>DRJIT_DYNAMIC\<close>; \<open>is_pointer\<close> is
  \<open>(VarType) s.type == VarType::Pointer\<close>; \<open>value_impl\<close> is the callable found on
  the value type (or the array module), \<open>None\<close> being a failed call; \<open>zero\<close> is the
  element of a freshly initialised instance.
\<close>

record 'v supplement =
  is_tensor :: bool
  is_matrix :: bool
  is_complex :: bool
  is_quaternion :: bool
  is_pointer :: bool
  shape0 :: "nat option"
  op_table :: "nat \<Rightarrow> 'v impl"
  mask :: tname
  value_impl :: "pyfun \<Rightarrow> 'v list \<Rightarrow> 'v option"
  zero :: 'v

text \<open>What \<open>apply\<close> returns: a null pointer with the Python error set to a message,
  the \<open>NotImplemented\<close> singleton, or a reference to the result.\<close>

datatype outcome = Failed string | NotImplemented | Returned ref

text \<open>The two exception classes the \<open>catch\<close> clauses tell apart.\<close>

datatype exn = python_error | runtime_error string

subsection \<open>Accessors of the supplement\<close>

text \<open>
  Modelled from the spec: the accessors \<open>len(value)\<close>, \<open>item(value, index)\<close>,
  \<open>set_item(value, index, v)\<close> and \<open>init(len, storage)\<close> of the external capability
  table, and the allocation primitives of the binding layer. \<open>item\<close> and \<open>set_item\<close>
  fail outside the outer length. The accessors of every array type, the mask types
  among them (\<open>item_mask\<close> in \<open>Select\<close> mode, \<open>set_item\<close> of the mask type in
  \<open>RichCompare\<close> mode), are these functions.
\<close>

definition elems :: "'v heap \<Rightarrow> ref \<Rightarrow> 'v list" where
  "elems h r = (if r < length h then (case h ! r of ArrayObj t d \<Rightarrow> d | TensorObj t a sh \<Rightarrow> []) else [])"

definition len :: "'v heap \<Rightarrow> ref \<Rightarrow> nat" where
  "len h r = length (elems h r)"

definition obj_type :: "'v heap \<Rightarrow> ref \<Rightarrow> tname" where
  "obj_type h r = (if r < length h then type_of (h ! r) else [])"

definition item :: "'v heap \<Rightarrow> ref \<Rightarrow> nat \<Rightarrow> 'v option" where
  "item h r i = (if i < len h r then Some (elems h r ! i) else None)"

definition set_item :: "'v heap \<Rightarrow> ref \<Rightarrow> nat \<Rightarrow> 'v \<Rightarrow> 'v heap option" where
  "set_item h r j v =
     (if j < len h r then Some (h[r := ArrayObj (obj_type h r) ((elems h r)[j := v])])
      else None)"

definition inst_alloc :: "'v heap \<Rightarrow> tname \<Rightarrow> 'v list \<Rightarrow> 'v heap \<times> ref" where
  "inst_alloc h t d = (h @ [ArrayObj t d], length h)"

definition inst_replace_move :: "'v heap \<Rightarrow> ref \<Rightarrow> ref \<Rightarrow> 'v heap" where
  "inst_replace_move h dst src = h[dst := h ! src]"


subsection \<open>The element loop of the generic fallback\<close>

text \<open>
  The recursive call on the elements. A type slot (and the rich comparison) returns a
  null pointer when it fails, which \<open>raise_if\<close> turns into a \<open>std::runtime_error\<close>;
  calling an attribute of the array module throws \<open>python_error\<close> itself.
  \<open>RichCompare\<close> is instantiated with an integer slot only.
\<close>

fun the_cmp :: "slot \<Rightarrow> int" where
  "the_cmp (SlotInt c) = c"
| "the_cmp (SlotName n) = 0"

definition nested_call :: "'v supplement \<Rightarrow> ApplyMode \<Rightarrow> slot \<Rightarrow> 'v list \<Rightarrow> exn + 'v" where
  "nested_call s mode slot v =
     (if mode = RichCompare then
        (case value_impl s (RichCmpSlot (the_cmp slot)) v of
           None \<Rightarrow> Inl (runtime_error ''Nested operation failed!'')
         | Some vr \<Rightarrow> Inr vr)
      else
        (case slot of
           SlotInt sl \<Rightarrow>
             (case value_impl s (TypeSlot sl) v of
                None \<Rightarrow> Inl (runtime_error ''Nested operation failed!'')
              | Some vr \<Rightarrow> Inr vr)
         | SlotName nm \<Rightarrow>
             (case value_impl s (ModuleAttr nm) v of
                None \<Rightarrow> Inl python_error
              | Some vr \<Rightarrow> Inr vr)))"

text \<open>
  \<open>for (j = 0; j < lr; ++j)\<close>: fetch element \<open>i[k]\<close> of every operand, recurse, store
  the value at index \<open>j\<close> of the result, advance every index whose operand has a
  length other than 1. The store is returned also when an exception leaves the loop.
\<close>

function fallback_loop ::
  "('v list \<Rightarrow> exn + 'v) \<Rightarrow> ref list \<Rightarrow> nat list \<Rightarrow> nat \<Rightarrow> ref \<Rightarrow> nat \<Rightarrow> nat list \<Rightarrow> 'v heap
     \<Rightarrow> exn option \<times> 'v heap" where
  "fallback_loop py os l lr result j i h =
     (if j < lr then
        (let v = map (\<lambda>(r, k). item h r k) (zip os i) in
         if \<not> list_all (\<lambda>x. x \<noteq> None) v then
           (Some (runtime_error ''Item retrival failed!''), h)
         else
           (case py (map the v) of
              Inl e \<Rightarrow> (Some e, h)
            | Inr vr \<Rightarrow>
                (case set_item h result j vr of
                   None \<Rightarrow> (Some (runtime_error ''Item assignment failed!''), h)
                 | Some h' \<Rightarrow>
                     fallback_loop py os l lr result (j + 1)
                       (map (\<lambda>(k, n). k + (if n = 1 then 0 else 1)) (zip i l)) h')))
      else (None, h))"
  by pat_completeness auto
termination
  by (relation "measure (\<lambda>(py, os, l, lr, result, j, i, h). lr - j)") auto

declare fallback_loop.simps [simp del]

subsection \<open>apply on array operands\<close>

text \<open>The tail of \<open>apply\<close>: in in-place mode, a separately constructed result replaces
  the contents of \<open>o[0]\<close>, which is then returned.\<close>

definition finish :: "bool \<Rightarrow> ref list \<Rightarrow> ref \<Rightarrow> 'v heap \<Rightarrow> (exn + outcome) \<times> 'v heap" where
  "finish move os result h =
     (if move then (Inr (Returned (hd os)), inst_replace_move h (hd os) result)
      else (Inr (Returned result), h))"

text \<open>The condition and the message of the \<open>raise_if\<close> in \<open>RichCompare\<close> mode.\<close>

definition restriction_msg :: string where
  "restriction_msg = ''Inequality comparisons are only permitted on ordinary '' @
                     ''arithmetic arrays. They are suppressed for complex '' @
                     ''arrays, quaternions, matrices, and arrays of pointers.''"

definition comparison_rejected :: "'v supplement \<Rightarrow> slot \<Rightarrow> bool" where
  "comparison_rejected s slot \<longleftrightarrow>
     ((is_matrix s \<or> is_complex s \<or> is_quaternion s) \<and>
      (the_cmp slot \<noteq> Py_EQ \<and> the_cmp slot \<noteq> Py_NE)) \<or> is_pointer s"

text \<open>
  The body of \<open>apply\<close> after promotion, for a type that is not a tensor. \<open>move0\<close> is
  \<open>Mode == InPlace && o[0].is(first(args...))\<close>. The outcome is an exception (for the
  \<open>catch\<close> clauses) or the returned value.
\<close>

definition apply_array ::
  "(tname \<Rightarrow> 'v supplement) \<Rightarrow> ApplyMode \<Rightarrow> nat \<Rightarrow> slot \<Rightarrow> bool \<Rightarrow> ref list \<Rightarrow> tname \<Rightarrow> 'v heap
     \<Rightarrow> (exn + outcome) \<times> 'v heap" where
  "apply_array supp mode op slot move0 os tp h =
     (let s = supp tp in
      case op_table s op of
        DRJIT_OP_NOT_IMPLEMENTED \<Rightarrow> (Inr NotImplemented, h)
      | impl \<Rightarrow>
          if mode = RichCompare \<and> comparison_rejected s slot
          then (Inl (runtime_error restriction_msg), h)
          else
            (let result_type = (if mode = RichCompare then mask s else tp) in
             case impl of
               Kernel k \<Rightarrow>
                 (let (h1, result) =
                        inst_alloc h result_type
                          (k (map (elems h) os)
                             (if mode = RichCompare then Some (the_cmp slot) else None))
                  in finish move0 os result h1)
             | _ \<Rightarrow>
                 (case shape0 s of
                    Some n \<Rightarrow>
                      (let l = map (\<lambda>r. n) os; lr = n;
                           (h1, result, move) =
                             (if mode = InPlace then (h, hd os, False)
                              else (let (h', r) = inst_alloc h result_type
                                                    (replicate n (zero (supp result_type)))
                                    in (h', r, move0)))
                       in case fallback_loop (nested_call s mode slot) os l lr result 0
                                 (map (\<lambda>r. 0) os) h1 of
                            (Some e, h2) \<Rightarrow> (Inl e, h2)
                          | (None, h2) \<Rightarrow> finish move os result h2)
                  | None \<Rightarrow>
                      (let l = map (len h) os; lr = maxv l in
                       if list_ex (\<lambda>n. n \<noteq> lr \<and> n \<noteq> 1) l then
                         (Inl (runtime_error (raise_incompatible_size_error l)), h)
                       else
                         (let (h1, result, move) =
                                (if mode = InPlace \<and> lr = hd l then (h, hd os, False)
                                 else (let (h', r) = inst_alloc h result_type
                                                       (replicate lr (zero s))
                                       in (h', r, move0)))
                          in case fallback_loop (nested_call s mode slot) os l lr result 0
                                    (map (\<lambda>r. 0) os) h1 of
                               (Some e, h2) \<Rightarrow> (Inl e, h2)
                             | (None, h2) \<Rightarrow> finish move os result h2)))))"

text \<open>\<open>nb::chain_error\<close> in the two \<open>catch\<close> clauses: the message left in the Python
  error state. \<open>apply_tensor\<close> ends the first message with a period, \<open>apply\<close> with an
  exclamation mark.\<close>

definition chain_error :: "bool \<Rightarrow> slot \<Rightarrow> nat \<Rightarrow> tname \<Rightarrow> exn \<Rightarrow> string" where
  "chain_error tensor slot op tp e =
     (case e of
        python_error \<Rightarrow>
          (case slot of
             SlotName nm \<Rightarrow> ''drjit.'' @ op_names ! op @ ''(<'' @ tp @ ''>): failed (see above)''
           | SlotInt sl \<Rightarrow> tp @ ''.'' @ op_names ! op @ ''(): failed (see above)'')
          @ (if tensor then ''.'' else ''!'')
      | runtime_error what \<Rightarrow>
          (case slot of
             SlotName nm \<Rightarrow> ''drjit.'' @ op_names ! op @ ''(<'' @ tp @ ''>): '' @ what
           | SlotInt sl \<Rightarrow> tp @ ''.'' @ op_names ! op @ ''(): '' @ what))"


subsection \<open>Promotion\<close>

text \<open>
  \<open>promote\<close> is defined in another source file and is a parameter here: given the
  store, the operand references and the flag \<open>Mode == Select\<close>, it throws or returns
  the store and the converted operands. \<open>apply\<close> and \<open>apply_tensor\<close> call it only
  when the operands' types are not all the type of \<open>o[0]\<close>; the type \<open>tp\<close> is then
  re-read from operand 1 in \<open>Select\<close> mode and from operand 0 otherwise.
\<close>

type_synonym 'v promote = "'v heap \<Rightarrow> ref list \<Rightarrow> bool \<Rightarrow> exn + ('v heap \<times> ref list)"

definition promote_step ::
  "'v promote \<Rightarrow> ApplyMode \<Rightarrow> ref list \<Rightarrow> 'v heap \<Rightarrow> exn + ('v heap \<times> ref list \<times> tname)" where
  "promote_step promote mode args h =
     (let tp = obj_type h (hd args) in
      if \<not> list_all (\<lambda>r. obj_type h r = tp) args then
        (case promote h args (mode = Select) of
           Inl e \<Rightarrow> Inl e
         | Inr (h', os) \<Rightarrow> Inr (h', os, obj_type h' (os ! (if mode = Select then 1 else 0))))
      else Inr (h, args, tp))"

subsection \<open>Tensor operands\<close>

text \<open>
  The index array of \<open>tensor_broadcast\<close>. The loop over the dimensions divides the
  running size by \<open>shape_dst[i]\<close>; the quotient of an integer division by zero is
  undefined in C++, which is the value \<open>None\<close> here. The arithmetic on the index
  array is element-wise; its elements stay below the size of the target shape.
\<close>

fun broadcast_loop :: "nat list \<Rightarrow> nat list \<Rightarrow> nat \<Rightarrow> nat list \<Rightarrow> nat list option" where
  "broadcast_loop [] dst size0 index = Some index"
| "broadcast_loop (s # src) [] size0 index = None"
| "broadcast_loop (s # src) (d # dst) size0 index =
     (if d = 0 then None
      else
        (let size_next = size0 div d;
             index' = (if s = 1 \<and> d \<noteq> 1
                       then map (\<lambda>k. (k mod size_next) + (k div size0) * size_next) index
                       else index)
         in broadcast_loop src dst size_next index'))"

definition broadcast_index :: "nat list \<Rightarrow> nat list \<Rightarrow> nat list option" where
  "broadcast_index shape_src shape_dst =
     (let ndim = length shape_src;
          size0 = fold (\<lambda>d acc. acc * d) (take ndim shape_dst) 1
      in broadcast_loop shape_src shape_dst size0 [0..<size0])"

text \<open>Modelled from the spec: \<open>gather\<close> reads the flat array through the index array
  into a new array of the same type; an index outside the array is a failure.\<close>

definition gather :: "'v heap \<Rightarrow> ref \<Rightarrow> nat list \<Rightarrow> ('v heap \<times> ref) option" where
  "gather h array index =
     (if list_all (\<lambda>k. k < len h array) index
      then Some (inst_alloc h (obj_type h array) (map (\<lambda>k. elems h array ! k) index))
      else None)"

text \<open>The result of \<open>tensor_broadcast\<close>: the exception, undefined behaviour, or the
  store and the (possibly replaced) flat array.\<close>

datatype 'a step = Throws exn | Undefined | Done 'a

definition tensor_broadcast ::
  "'v heap \<Rightarrow> ref \<Rightarrow> nat list \<Rightarrow> nat list \<Rightarrow> ('v heap \<times> ref) step" where
  "tensor_broadcast h array shape_src shape_dst =
     (let ndim = length shape_src in
      if ndim = 0 \<or> shape_src = take ndim shape_dst then Done (h, array)
      else
        (case broadcast_index shape_src shape_dst of
           None \<Rightarrow> Undefined
         | Some index \<Rightarrow>
             (case gather h array index of
                None \<Rightarrow> Throws python_error
              | Some (h', array') \<Rightarrow> Done (h', array'))))"

text \<open>The fold expression \<open>(tensor_broadcast(o[Is], arrays[Is], *shapes[Is], shape), ...)\<close>,
  left to right.\<close>

fun broadcast_all :: "'v heap \<Rightarrow> ref list \<Rightarrow> nat list list \<Rightarrow> nat list \<Rightarrow> ('v heap \<times> ref list) step" where
  "broadcast_all h (a # arrays) (sh # shapes) shape =
     (case tensor_broadcast h a sh shape of
        Throws e \<Rightarrow> Throws e
      | Undefined \<Rightarrow> Undefined
      | Done (h', a') \<Rightarrow>
          (case broadcast_all h' arrays shapes shape of
             Throws e \<Rightarrow> Throws e
           | Undefined \<Rightarrow> Undefined
           | Done (h'', as') \<Rightarrow> Done (h'', a' # as')))"
| "broadcast_all h arrays shapes shape = Done (h, [])"

text \<open>\<open>tensor_array\<close> and \<open>tensor_shape\<close> of a tensor instance.\<close>

definition tensor_array :: "'v heap \<Rightarrow> ref \<Rightarrow> ref option" where
  "tensor_array h r =
     (if r < length h then (case h ! r of TensorObj t a sh \<Rightarrow> Some a | ArrayObj t d \<Rightarrow> None)
      else None)"

definition tensor_shape :: "'v heap \<Rightarrow> ref \<Rightarrow> nat list" where
  "tensor_shape h r =
     (if r < length h then (case h ! r of TensorObj t a sh \<Rightarrow> sh | ArrayObj t d \<Rightarrow> [])
      else [])"

text \<open>
  Ranks and extents are values of the 64-bit type \<open>size_t\<close>, natural numbers below
  \<open>2 ^ 64\<close>. \<open>maxv\<close> takes its arguments as \<open>Py_ssize_t\<close>, so each of them is
  converted to the signed type of the same width, where a value from \<open>2 ^ 63\<close> on is
  negative, and what \<open>maxv\<close> returns is converted back when it is assigned to a
  \<open>size_t\<close> variable.
\<close>

definition to_ssize :: "nat \<Rightarrow> int" where
  "to_ssize n = (if n < 2 ^ 63 then int n else int n - 2 ^ 64)"

definition to_size :: "int \<Rightarrow> nat" where
  "to_size v = nat (v mod 2 ^ 64)"

text \<open>
  The loop over the dimensions in \<open>apply_tensor\<close>: the extents at dimension \<open>i\<close>
  (1 for an operand of rank 0), what \<open>maxv\<close> makes of them, and the \<open>break\<close> with
  \<open>compatible = false\<close>, which is the value \<open>None\<close>. Before the loop, the ranks are
  compared with what \<open>maxv\<close> makes of the ranks.
\<close>

definition dim_extent :: "nat list \<Rightarrow> nat \<Rightarrow> nat" where
  "dim_extent sh i = (if length sh \<noteq> 0 then sh ! i else 1)"

fun shape_loop :: "nat list list \<Rightarrow> nat list \<Rightarrow> nat list option" where
  "shape_loop shapes [] = Some []"
| "shape_loop shapes (i # is) =
     (let shape_i = map (\<lambda>sh. dim_extent sh i) shapes;
          value = to_size (maxv (map to_ssize shape_i))
      in if list_ex (\<lambda>sh. dim_extent sh i \<noteq> value \<and> dim_extent sh i \<noteq> 1 \<and> length sh \<noteq> 0) shapes
         then None
         else map_option ((#) value) (shape_loop shapes is))"

definition common_shape :: "nat list list \<Rightarrow> nat list option" where
  "common_shape shapes =
     (let ndims = map length shapes; ndim = to_size (maxv (map to_ssize ndims)) in
      if length shapes > 1 \<and> list_ex (\<lambda>nd. ndim \<noteq> nd \<and> nd \<noteq> 0) ndims then None
      else shape_loop shapes [0..<ndim])"


text \<open>\<open>nb::str(cast_shape(shape))\<close>: the text of a Python tuple of integers.\<close>

fun tuple_items :: "nat list \<Rightarrow> string" where
  "tuple_items [] = []"
| "tuple_items [n] = to_string n"
| "tuple_items (n # ns) = to_string n @ '', '' @ tuple_items ns"

definition shape_str :: "nat list \<Rightarrow> string" where
  "shape_str sh = (if length sh = 1 then ''('' @ to_string (hd sh) @ '',)''
                   else ''('' @ tuple_items sh @ '')'')"

definition incompatible_shapes_msg :: "nat list list \<Rightarrow> string" where
  "incompatible_shapes_msg shapes =
     (if length shapes = 2
      then ''Operands have incompatible shapes: '' @ shape_str (shapes ! 0) @ '' and '' @
           shape_str (shapes ! 1) @ ''.''
      else ''Operands have incompatible shapes: '' @ shape_str (shapes ! 0) @ '', '' @
           shape_str (shapes ! 1) @ '', and '' @ shape_str (shapes ! 2) @ ''.'')"


subsection \<open>apply_tensor and apply\<close>

text \<open>
  A run of \<open>apply\<close> either has undefined behaviour (\<open>Crash\<close>) or returns an outcome
  and leaves a store. \<open>apply\<close> and \<open>apply_tensor\<close> call each other; the recursion is
  bounded by a counter, and \<open>None\<close> means that the counter ran out.
\<close>

datatype 'v run = Crash | Ret outcome "'v heap"

text \<open>
  \<open>apply_tensor\<close>, with the nested \<open>apply\<close> on the flat arrays as the parameter
  \<open>nested\<close>. The constructor call \<open>result_type(result_array, cast_shape(shape))\<close>
  builds a new tensor instance; handed the \<open>NotImplemented\<close> singleton instead of an
  array it fails with a Python error.
\<close>

definition apply_tensor ::
  "(ApplyMode \<Rightarrow> ref list \<Rightarrow> 'v heap \<Rightarrow> 'v run option) \<Rightarrow> (tname \<Rightarrow> 'v supplement) \<Rightarrow> 'v promote
     \<Rightarrow> ApplyMode \<Rightarrow> nat \<Rightarrow> slot \<Rightarrow> ref list \<Rightarrow> 'v heap \<Rightarrow> 'v run option" where
  "apply_tensor nested supp promote mode op slot args h =
     (case promote_step promote mode args h of
        Inl e \<Rightarrow> Some (Ret (Failed (chain_error True slot op (obj_type h (hd args)) e)) h)
      | Inr (h0, os, tp) \<Rightarrow>
          (let move = (mode = InPlace \<and> hd os = hd args);
               arrays = map (tensor_array h0) os;
               shapes = map (tensor_shape h0) os
           in if \<not> list_all (\<lambda>a. a \<noteq> None) arrays then
                Some (Ret (Failed (chain_error True slot op tp python_error)) h0)
              else
                (case common_shape shapes of
                   None \<Rightarrow>
                     Some (Ret (Failed (chain_error True slot op tp
                                 (runtime_error (incompatible_shapes_msg shapes)))) h0)
                 | Some shape \<Rightarrow>
                     (case (if length args > 1
                            then broadcast_all h0 (map the arrays) shapes shape
                            else Done (h0, map the arrays)) of
                        Throws e \<Rightarrow> Some (Ret (Failed (chain_error True slot op tp e)) h0)
                      | Undefined \<Rightarrow> Some Crash
                      | Done (h1, arrays') \<Rightarrow>
                          (case nested (if mode = InPlace then Normal else mode) arrays' h1 of
                             None \<Rightarrow> None
                           | Some Crash \<Rightarrow> Some Crash
                           | Some (Ret (Failed m) h2) \<Rightarrow>
                               Some (Ret (Failed (chain_error True slot op tp
                                  (runtime_error ''Operation on underlying array failed.''))) h2)
                           | Some (Ret NotImplemented h2) \<Rightarrow>
                               Some (Ret (Failed (chain_error True slot op tp python_error)) h2)
                           | Some (Ret (Returned result_array) h2) \<Rightarrow>
                               (let result_type = (if mode = RichCompare
                                                   then mask (supp (obj_type h0 (os ! 0))) else tp);
                                    h3 = h2 @ [TensorObj result_type result_array shape];
                                    result = length h2
                                in if move
                                   then Some (Ret (Returned (hd os))
                                                (inst_replace_move h3 (hd os) result))
                                   else Some (Ret (Returned result) h3)))))))"

text \<open>\<open>apply\<close> itself (named \<open>apply_op\<close>, since \<open>apply\<close> is a keyword here).\<close>

fun apply_op ::
  "nat \<Rightarrow> (tname \<Rightarrow> 'v supplement) \<Rightarrow> 'v promote \<Rightarrow> ApplyMode \<Rightarrow> nat \<Rightarrow> slot \<Rightarrow> ref list \<Rightarrow> 'v heap
     \<Rightarrow> 'v run option" where
  "apply_op 0 supp promote mode op slot args h = None"
| "apply_op (Suc fuel) supp promote mode op slot args h =
     (case promote_step promote mode args h of
        Inl e \<Rightarrow> Some (Ret (Failed (chain_error False slot op (obj_type h (hd args)) e)) h)
      | Inr (h0, os, tp) \<Rightarrow>
          if is_tensor (supp tp) then
            apply_tensor (\<lambda>m a h'. apply_op fuel supp promote m op slot a h')
              supp promote mode op slot os h0
          else
            (case apply_array supp mode op slot (mode = InPlace \<and> hd os = hd args) os tp h0 of
               (Inl e, h1) \<Rightarrow> Some (Ret (Failed (chain_error False slot op tp e)) h1)
             | (Inr r, h1) \<Rightarrow> Some (Ret r h1)))"

declare apply_op.simps [simp del]


subsection \<open>Trees of Python values\<close>

text \<open>
  The values that \<open>traverse_pair\<close> and \<open>transform\<close> walk, by the case the functions
  take on the type of the value: an array type that is a tensor (with its shape vector
  and its flat array), an array type of more than one dimension (with its items; the
  flag says whether \<open>shape[0]\<close> is \<open>DRJIT_DYNAMIC\<close>), any other array type, a tuple, a
  list, a dictionary (its entries in iteration order, each key once), an instance of a
  type whose \<open>DRJIT_STRUCT\<close> is a dictionary (the declared fields in order, each with
  the attribute's value), \<open>None\<close>, and any other object. The payload \<open>'a\<close> is what a
  callback is handed.
\<close>

datatype 'a pytree =
    Tensor tname "nat list" 'a
  | Nested tname bool "'a pytree list"
  | Flat tname 'a
  | Tuple "'a pytree list"
  | PyList "'a pytree list"
  | Dict "(string \<times> 'a pytree) list"
  | Struct tname "(string \<times> 'a pytree) list"
  | PyNone
  | Opaque tname 'a

text \<open>The type of a value, as \<open>tp1.is(tp2)\<close> compares it, and its name.\<close>

datatype pytype =
    TensorT tname | NestedT tname bool | FlatT tname | TupleT | ListT | DictT
  | StructT tname | NoneT | OpaqueT tname

fun py_type :: "'a pytree \<Rightarrow> pytype" where
  "py_type (Tensor t sh a) = TensorT t"
| "py_type (Nested t dyn xs) = NestedT t dyn"
| "py_type (Flat t a) = FlatT t"
| "py_type (Tuple xs) = TupleT"
| "py_type (PyList xs) = ListT"
| "py_type (Dict d) = DictT"
| "py_type (Struct t fs) = StructT t"
| "py_type PyNone = NoneT"
| "py_type (Opaque t a) = OpaqueT t"

fun type_name :: "pytype \<Rightarrow> string" where
  "type_name (TensorT t) = t"
| "type_name (NestedT t dyn) = t"
| "type_name (FlatT t) = t"
| "type_name TupleT = ''tuple''"
| "type_name ListT = ''list''"
| "type_name DictT = ''dict''"
| "type_name (StructT t) = t"
| "type_name NoneT = ''NoneType''"
| "type_name (OpaqueT t) = t"

text \<open>
  An exception in flight: \<open>nb::python_error\<close> with the chain of messages in the Python
  error state (the latest last), or another \<open>std::exception\<close> with its \<open>what()\<close>.
\<close>

datatype texn = PythonError "string list" | StdException string

text \<open>The two \<open>catch\<close> clauses of \<open>traverse_pair\<close>: chain a message and rethrow
  \<open>python_error\<close>.\<close>

definition catch_pair :: "string \<Rightarrow> pytype \<Rightarrow> pytype \<Rightarrow> texn + 's \<Rightarrow> texn + 's" where
  "catch_pair op tp1 tp2 r =
     (case r of
        Inl (PythonError chain) \<Rightarrow>
          Inl (PythonError (chain @
            [op @ ''(): error encountered while processing arguments of type '' @ [CHR 0x27] @
             type_name tp1 @ [CHR 0x27] @ '' and '' @ [CHR 0x27] @ type_name tp2 @ [CHR 0x27] @
             '' (see above).'']))
      | Inl (StdException what) \<Rightarrow>
          Inl (PythonError
            [op @ ''(): error encountered while processing arguments of type '' @ [CHR 0x27] @
             type_name tp1 @ [CHR 0x27] @ '' and '' @ [CHR 0x27] @ type_name tp2 @ [CHR 0x27] @
             '': '' @ what])
      | Inr s \<Rightarrow> Inr s)"

definition incompatible_lengths :: "nat \<Rightarrow> nat \<Rightarrow> texn" where
  "incompatible_lengths len1 len2 =
     StdException (''Incompatible input lengths ('' @ to_string len1 @ '' and '' @
                   to_string len2 @ '').'')"

text \<open>
  \<open>traverse_pair\<close>. The callback \<open>tc\<close> takes the two leaves and the state it works on,
  and throws or returns the new state. \<open>traverse_pair_items\<close> is the loop over the
  indices of two sequences of one length, \<open>traverse_pair_keys\<close> the loop over the keys
  of the first dictionary (or over the declared fields), which looks each key up in the
  second; a missing key or attribute is a Python error. For two dictionaries,
  \<open>d1.keys()\<close> and \<open>d2.keys()\<close> are the lists that \<open>PyDict_Keys\<close> returns, the keys in
  iteration order, and \<open>k1.equal(k2)\<close> compares these lists.
\<close>

fun traverse_pair ::
    "string \<Rightarrow> ('a \<Rightarrow> 'a \<Rightarrow> 's \<Rightarrow> texn + 's) \<Rightarrow> 'a pytree \<Rightarrow> 'a pytree \<Rightarrow> 's \<Rightarrow> texn + 's"
  and traverse_pair_items ::
    "string \<Rightarrow> ('a \<Rightarrow> 'a \<Rightarrow> 's \<Rightarrow> texn + 's) \<Rightarrow> 'a pytree list \<Rightarrow> 'a pytree list \<Rightarrow> 's \<Rightarrow> texn + 's"
  and traverse_pair_keys ::
    "string \<Rightarrow> ('a \<Rightarrow> 'a \<Rightarrow> 's \<Rightarrow> texn + 's) \<Rightarrow> (string \<times> 'a pytree) list
       \<Rightarrow> (string \<times> 'a pytree) list \<Rightarrow> 's \<Rightarrow> texn + 's"
where
  "traverse_pair op tc (Tensor t sh a) h2 s =
     catch_pair op (TensorT t) (py_type h2)
       (case h2 of
          Tensor t2 sh2 b \<Rightarrow>
            if t \<noteq> t2 then Inl (StdException ''Mismatched input types.'') else tc a b s
        | _ \<Rightarrow> Inl (StdException ''Mismatched input types.''))"
| "traverse_pair op tc (Nested t dyn xs) h2 s =
     catch_pair op (NestedT t dyn) (py_type h2)
       (case h2 of
          Nested t2 dyn2 ys \<Rightarrow>
            if t \<noteq> t2 \<or> dyn \<noteq> dyn2 then Inl (StdException ''Mismatched input types.'')
            else if dyn \<and> length xs \<noteq> length ys then
              Inl (incompatible_lengths (length xs) (length ys))
            else traverse_pair_items op tc xs ys s
        | _ \<Rightarrow> Inl (StdException ''Mismatched input types.''))"
| "traverse_pair op tc (Flat t a) h2 s =
     catch_pair op (FlatT t) (py_type h2)
       (case h2 of
          Flat t2 b \<Rightarrow>
            if t \<noteq> t2 then Inl (StdException ''Mismatched input types.'') else tc a b s
        | _ \<Rightarrow> Inl (StdException ''Mismatched input types.''))"
| "traverse_pair op tc (Tuple xs) h2 s =
     catch_pair op TupleT (py_type h2)
       (case h2 of
          Tuple ys \<Rightarrow>
            if length xs \<noteq> length ys then Inl (incompatible_lengths (length xs) (length ys))
            else traverse_pair_items op tc xs ys s
        | _ \<Rightarrow> Inl (StdException ''Mismatched input types.''))"
| "traverse_pair op tc (PyList xs) h2 s =
     catch_pair op ListT (py_type h2)
       (case h2 of
          PyList ys \<Rightarrow>
            if length xs \<noteq> length ys then Inl (incompatible_lengths (length xs) (length ys))
            else traverse_pair_items op tc xs ys s
        | _ \<Rightarrow> Inl (StdException ''Mismatched input types.''))"
| "traverse_pair op tc (Dict d1) h2 s =
     catch_pair op DictT (py_type h2)
       (case h2 of
          Dict d2 \<Rightarrow>
            if map fst d1 \<noteq> map fst d2 then
              Inl (StdException ''Dictionaries have mismatched keys.'')
            else traverse_pair_keys op tc d1 d2 s
        | _ \<Rightarrow> Inl (StdException ''Mismatched input types.''))"
| "traverse_pair op tc (Struct t fs1) h2 s =
     catch_pair op (StructT t) (py_type h2)
       (case h2 of
          Struct t2 fs2 \<Rightarrow>
            if t \<noteq> t2 then Inl (StdException ''Mismatched input types.'')
            else traverse_pair_keys op tc fs1 fs2 s
        | _ \<Rightarrow> Inl (StdException ''Mismatched input types.''))"
| "traverse_pair op tc PyNone h2 s =
     catch_pair op NoneT (py_type h2)
       (case h2 of
          PyNone \<Rightarrow> Inr s
        | _ \<Rightarrow> Inl (StdException ''Mismatched input types.''))"
| "traverse_pair op tc (Opaque t a) h2 s =
     catch_pair op (OpaqueT t) (py_type h2)
       (case h2 of
          Opaque t2 b \<Rightarrow>
            if t \<noteq> t2 then Inl (StdException ''Mismatched input types.'') else Inr s
        | _ \<Rightarrow> Inl (StdException ''Mismatched input types.''))"
| "traverse_pair_items op tc [] ys s = Inr s"
| "traverse_pair_items op tc (x # xs) [] s = Inr s"
| "traverse_pair_items op tc (x # xs) (y # ys) s =
     (case traverse_pair op tc x y s of
        Inl e \<Rightarrow> Inl e
      | Inr s' \<Rightarrow> traverse_pair_items op tc xs ys s')"
| "traverse_pair_keys op tc [] d2 s = Inr s"
| "traverse_pair_keys op tc ((k, v) # d1) d2 s =
     (case map_of d2 k of
        None \<Rightarrow> Inl (PythonError [])
      | Some v2 \<Rightarrow>
          (case traverse_pair op tc v v2 s of
             Inl e \<Rightarrow> Inl e
           | Inr s' \<Rightarrow> traverse_pair_keys op tc d1 d2 s'))"


text \<open>
  The structural check of one level as the specification words it: the two values
  mismatch when their types differ, when they are sequences of different lengths
  (tuples, lists, or arrays of several dimensions with a dynamic outer length), or when
  they are dictionaries with different key sets. The value is the text of the
  exception.
\<close>

fun sequence_items :: "'a pytree \<Rightarrow> 'a pytree list option" where
  "sequence_items (Tuple xs) = Some xs"
| "sequence_items (PyList xs) = Some xs"
| "sequence_items (Nested t dyn xs) = (if dyn then Some xs else None)"
| "sequence_items h = None"

fun dict_entries :: "'a pytree \<Rightarrow> (string \<times> 'a pytree) list option" where
  "dict_entries (Dict d) = Some d"
| "dict_entries h = None"

definition structural_mismatch :: "'a pytree \<Rightarrow> 'a pytree \<Rightarrow> string option" where
  "structural_mismatch h1 h2 =
     (if py_type h1 \<noteq> py_type h2 then Some ''Mismatched input types.''
      else
        (case (sequence_items h1, sequence_items h2) of
           (Some xs, Some ys) \<Rightarrow>
             if length xs \<noteq> length ys
             then Some (''Incompatible input lengths ('' @ to_string (length xs) @ '' and '' @
                        to_string (length ys) @ '').'')
             else None
         | _ \<Rightarrow>
             (case (dict_entries h1, dict_entries h2) of
                (Some d1, Some d2) \<Rightarrow>
                  if set (map fst d1) \<noteq> set (map fst d2)
                  then Some ''Dictionaries have mismatched keys.''
                  else None
              | _ \<Rightarrow> None)))"

text \<open>A callback that records the pairs it is handed, in order.\<close>

definition record_pair :: "'a \<Rightarrow> 'a \<Rightarrow> ('a \<times> 'a) list \<Rightarrow> texn + ('a \<times> 'a) list" where
  "record_pair a b s = Inr (s @ [(a, b)])"

subsection \<open>transform\<close>

text \<open>
  A \<open>TransformCallback\<close>: \<open>transform_type\<close> maps the type of an array to the type of
  its image (\<open>None\<close> is the invalid handle), and the call operator is handed the
  source leaf and a zero-initialised instance \<open>h2\<close> of the target type, which it fills:
  \<open>call t2 a\<close> is what that instance holds afterwards, unless the callback throws.
\<close>

record 'a TransformCallback =
  transform_type :: "tname \<Rightarrow> tname option"
  call :: "tname \<Rightarrow> 'a \<Rightarrow> texn + 'a"

definition catch_one :: "string \<Rightarrow> pytype \<Rightarrow> texn + 'r \<Rightarrow> texn + 'r" where
  "catch_one op tp r =
     (case r of
        Inl (PythonError chain) \<Rightarrow>
          Inl (PythonError (chain @
            [op @ ''(): error encountered while processing an argument of type '' @ [CHR 0x27] @
             type_name tp @ [CHR 0x27] @ '' (see above).'']))
      | Inl (StdException what) \<Rightarrow>
          Inl (PythonError
            [op @ ''(): error encountered while processing an argument of type '' @ [CHR 0x27] @
             type_name tp @ [CHR 0x27] @ '': '' @ what])
      | Inr x \<Rightarrow> Inr x)"

text \<open>
  \<open>transform\<close>. For a tensor, \<open>h2\<close> is \<open>nb::inst_alloc_zero(t2)\<close> and only the two flat
  arrays reach the callback, so the shape vector of \<open>h2\<close> is the zero-initialised one.
  For an array of several dimensions the items of \<open>h2\<close> are assigned one by one
  (assigning \<open>None\<close> to an item of an array is a Python error); the image keeps the
  flag of the source, which the identity \<open>transform_type\<close> preserves. The other
  containers are rebuilt entry by entry, and any other object is returned as it is.
\<close>

fun transform :: "string \<Rightarrow> 'a TransformCallback \<Rightarrow> 'a pytree \<Rightarrow> texn + 'a pytree"
  and transform_items :: "string \<Rightarrow> 'a TransformCallback \<Rightarrow> 'a pytree list \<Rightarrow> texn + 'a pytree list"
  and transform_array_items :: "string \<Rightarrow> 'a TransformCallback \<Rightarrow> 'a pytree list \<Rightarrow> texn + 'a pytree list"
  and transform_entries ::
    "string \<Rightarrow> 'a TransformCallback \<Rightarrow> (string \<times> 'a pytree) list \<Rightarrow> texn + (string \<times> 'a pytree) list"
where
  "transform op tc (Tensor t sh a) =
     catch_one op (TensorT t)
       (case transform_type tc t of
          None \<Rightarrow> Inr PyNone
        | Some t2 \<Rightarrow>
            (case call tc t2 a of
               Inl e \<Rightarrow> Inl e
             | Inr a' \<Rightarrow> Inr (Tensor t2 [] a')))"
| "transform op tc (Nested t dyn xs) =
     catch_one op (NestedT t dyn)
       (case transform_type tc t of
          None \<Rightarrow> Inr PyNone
        | Some t2 \<Rightarrow>
            (case transform_array_items op tc xs of
               Inl e \<Rightarrow> Inl e
             | Inr ys \<Rightarrow> Inr (Nested t2 dyn ys)))"
| "transform op tc (Flat t a) =
     catch_one op (FlatT t)
       (case transform_type tc t of
          None \<Rightarrow> Inr PyNone
        | Some t2 \<Rightarrow>
            (case call tc t2 a of
               Inl e \<Rightarrow> Inl e
             | Inr a' \<Rightarrow> Inr (Flat t2 a')))"
| "transform op tc (Tuple xs) =
     catch_one op TupleT
       (case transform_items op tc xs of Inl e \<Rightarrow> Inl e | Inr ys \<Rightarrow> Inr (Tuple ys))"
| "transform op tc (PyList xs) =
     catch_one op ListT
       (case transform_items op tc xs of Inl e \<Rightarrow> Inl e | Inr ys \<Rightarrow> Inr (PyList ys))"
| "transform op tc (Dict d) =
     catch_one op DictT
       (case transform_entries op tc d of Inl e \<Rightarrow> Inl e | Inr d' \<Rightarrow> Inr (Dict d'))"
| "transform op tc (Struct t fs) =
     catch_one op (StructT t)
       (case transform_entries op tc fs of Inl e \<Rightarrow> Inl e | Inr fs' \<Rightarrow> Inr (Struct t fs'))"
| "transform op tc PyNone = catch_one op NoneT (Inr PyNone)"
| "transform op tc (Opaque t a) = catch_one op (OpaqueT t) (Inr (Opaque t a))"
| "transform_items op tc [] = Inr []"
| "transform_items op tc (x # xs) =
     (case transform op tc x of
        Inl e \<Rightarrow> Inl e
      | Inr y \<Rightarrow>
          (case transform_items op tc xs of Inl e \<Rightarrow> Inl e | Inr ys \<Rightarrow> Inr (y # ys)))"
| "transform_array_items op tc [] = Inr []"
| "transform_array_items op tc (x # xs) =
     (case transform op tc x of
        Inl e \<Rightarrow> Inl e
      | Inr PyNone \<Rightarrow> Inl (PythonError [])
      | Inr y \<Rightarrow>
          (case transform_array_items op tc xs of Inl e \<Rightarrow> Inl e | Inr ys \<Rightarrow> Inr (y # ys)))"
| "transform_entries op tc [] = Inr []"
| "transform_entries op tc ((k, v) # d) =
     (case transform op tc v of
        Inl e \<Rightarrow> Inl e
      | Inr v' \<Rightarrow>
          (case transform_entries op tc d of Inl e \<Rightarrow> Inl e | Inr d' \<Rightarrow> Inr ((k, v') # d')))"

text \<open>The identity leaf function: every type is mapped to itself and the target
  instance receives the source leaf.\<close>

definition identity_callback :: "'a TransformCallback" where
  "identity_callback = \<lparr> transform_type = Some, call = (\<lambda>t2 a. Inr a) \<rparr>"

text \<open>Trees in which every tensor has the empty shape vector and no array of several
  dimensions holds \<open>None\<close> as an item.\<close>

fun shapeless :: "'a pytree \<Rightarrow> bool" where
  "shapeless (Tensor t sh a) = (sh = [])"
| "shapeless (Nested t dyn xs) = (\<forall>x \<in> set xs. shapeless x \<and> x \<noteq> PyNone)"
| "shapeless (Flat t a) = True"
| "shapeless (Tuple xs) = (\<forall>x \<in> set xs. shapeless x)"
| "shapeless (PyList xs) = (\<forall>x \<in> set xs. shapeless x)"
| "shapeless (Dict d) = (\<forall>kv \<in> set d. shapeless (snd kv))"
| "shapeless (Struct t fs) = (\<forall>kv \<in> set fs. shapeless (snd kv))"
| "shapeless PyNone = True"
| "shapeless (Opaque t a) = True"


subsection \<open>The gather index as the specification words it\<close>

text \<open>
  The offset into the flat array of an operand of shape \<open>src\<close> that position \<open>p\<close> of
  the flattened common shape \<open>dst\<close> is to read, in row-major order: along every
  dimension the index of \<open>p\<close> is taken as it is, except that it is 0 where the extent
  of the operand is 1.
\<close>

fun src_offset :: "nat list \<Rightarrow> nat list \<Rightarrow> nat \<Rightarrow> nat" where
  "src_offset (s # src) (d # dst) p =
     (if s = 1 then 0 else p div prod_list dst) * prod_list src
       + src_offset src dst (p mod prod_list dst)"
| "src_offset src dst p = 0"

subsection \<open>Promotions that leave existing instances alone\<close>

text \<open>A promotion that leaves every existing instance as it is: the store it returns
  extends the store it was given.\<close>

definition promote_extends :: "'v promote \<Rightarrow> bool" where
  "promote_extends promote \<longleftrightarrow>
     (\<forall>h args sel h' os. promote h args sel = Inr (h', os) \<longrightarrow> prefix h h')"

subsection \<open>The elements the fallback loop reads\<close>

text \<open>
  The index \<open>i[k]\<close> that the loop holds at iteration \<open>j\<close> for an operand of length
  \<open>n\<close> (it starts at 0 and advances by 0 when \<open>n\<close> is 1 and by 1 otherwise), and the
  elements of the operands at these indices.
\<close>

definition broadcast_idx :: "nat \<Rightarrow> nat \<Rightarrow> nat" where
  "broadcast_idx n j = (if n = 1 then 0 else j)"


subsection \<open>A concrete environment\<close>

text \<open>
  A small table of array types over integer elements, on which the theorems below are
  exercised: \<open>ArrayXf\<close> and \<open>ArrayXi\<close> are dynamic arrays served by the generic
  fallback (\<open>sqrt\<close>, operation 3, is not implemented for \<open>ArrayXi\<close>), \<open>Float\<close> has
  native kernels, \<open>Array3f\<close> has three entries, \<open>Matrix2f\<close> is a matrix type with two
  rows, \<open>Quaternion4f\<close> is a quaternion type without a comparison, \<open>ArrayXp\<close> holds
  pointers, \<open>TensorXf\<close> is a tensor type. The matrix and the pointer type have a
  native comparison kernel. The operation on the elements is addition.
\<close>

definition ex_kernel :: "int list list \<Rightarrow> int option \<Rightarrow> int list" where
  "ex_kernel xs c = map (\<lambda>(a, b). a + b) (zip (xs ! 0) (xs ! 1))"

definition ex_cmp_kernel :: "int list list \<Rightarrow> int option \<Rightarrow> int list" where
  "ex_cmp_kernel xs c = map (\<lambda>(a, b). if a = b then 1 else 0) (zip (xs ! 0) (xs ! 1))"

definition ex_supp :: "tname \<Rightarrow> int supplement" where
  "ex_supp t =
     \<lparr> is_tensor = (t = ''TensorXf''),
       is_matrix = (t = ''Matrix2f''),
       is_complex = False,
       is_quaternion = (t = ''Quaternion4f''),
       is_pointer = (t = ''ArrayXp''),
       shape0 = (if t = ''Array3f'' then Some 3 else if t = ''Matrix2f'' then Some 2 else None),
       op_table = (\<lambda>op. if (op = 3 \<and> t = ''ArrayXi'') \<or> (op = 44 \<and> t = ''Quaternion4f'')
                        then DRJIT_OP_NOT_IMPLEMENTED
                        else if op = 44 \<and> (t = ''Matrix2f'' \<or> t = ''ArrayXp'') then Kernel ex_cmp_kernel
                        else if t = ''Float'' then Kernel ex_kernel
                        else DRJIT_OP_DEFAULT),
       mask = ''Bool'',
       value_impl = (\<lambda>f vs. Some (sum_list vs)),
       zero = 0 \<rparr>"

text \<open>A promotion that converts the first of two operands into a new instance of the
  type of the second, and one that leaves the operands as they are.\<close>

definition ex_promote :: "int promote" where
  "ex_promote h args sel =
     Inr (h @ [ArrayObj (obj_type h (args ! 1)) (elems h (args ! 0))], [length h, args ! 1])"

definition no_promote :: "int promote" where
  "no_promote h args sel = Inr (h, args)"

section \<open>Properties\<close>

subsection \<open>Auxiliary facts\<close>

lemma sublist_trans: "sublist a b \<Longrightarrow> sublist b c \<Longrightarrow> sublist a c"
  unfolding sublist_def by (metis append.assoc)

lemma fold_append_concat:
  "fold (\<lambda>i msg. msg @ g i) xs init = init @ concat (map g xs)"
  by (induction xs arbitrary: init) auto

lemma sublist_concat_member: "x \<in> set xs \<Longrightarrow> sublist x (concat xs)"
proof -
  assume "x \<in> set xs"
  then obtain as bs where "xs = as @ x # bs" by (auto dest: split_list)
  then have "concat xs = concat as @ x @ concat bs" by simp
  then show ?thesis unfolding sublist_def by blast
qed

lemma size_error_names_length:
  assumes "k < length sizes"
  shows "sublist (to_string (sizes ! k)) (raise_incompatible_size_error sizes)"
proof -
  let ?g = "\<lambda>i. to_string (sizes ! i) @ size_sep (length sizes) i"
  let ?body = "concat (map ?g [0..<length sizes])"
  have "?g k \<in> set (map ?g [0..<length sizes])" using assms by auto
  then have a: "sublist (?g k) ?body"
    by (rule sublist_concat_member)
  have b: "sublist (to_string (sizes ! k)) (?g k)"
    by (rule sublist_append_rightI)
  have c: "sublist (to_string (sizes ! k)) ?body"
    by (rule sublist_trans[OF b a])
  have d: "sublist ?body (''invalid input array sizes ('' @ ?body @ '')'')"
    by (rule sublist_appendI)
  have e: "raise_incompatible_size_error sizes = ''invalid input array sizes ('' @ ?body @ '')''"
    unfolding raise_incompatible_size_error_def fold_append_concat by (simp only: append_assoc)
  show ?thesis
    unfolding e by (rule sublist_trans[OF c d])
qed

lemma chain_error_what: "sublist what (chain_error tensor slot op tp (runtime_error what))"
proof (cases slot)
  case (SlotInt sl)
  have "chain_error tensor slot op tp (runtime_error what) = (tp @ ''.'' @ op_names ! op @ ''(): '') @ what"
    using SlotInt by (simp add: chain_error_def)
  then show ?thesis by (simp only: sublist_append_leftI)
next
  case (SlotName nm)
  have "chain_error tensor slot op tp (runtime_error what) = (''drjit.'' @ op_names ! op @ ''(<'' @ tp @ ''>): '') @ what"
    using SlotName by (simp add: chain_error_def)
  then show ?thesis by (simp only: sublist_append_leftI)
qed





lemma sizes_mismatch_detected:
  assumes "i < length l" "j < length l" "l ! i \<noteq> l ! j" "l ! i \<noteq> 1" "l ! j \<noteq> 1"
  shows "list_ex (\<lambda>n. n \<noteq> maxv l \<and> n \<noteq> 1) l"
proof -
  have "l ! i \<noteq> maxv l \<or> l ! j \<noteq> maxv l" using assms(3) by auto
  then show ?thesis
  proof
    assume "l ! i \<noteq> maxv l"
    then have "l ! i \<in> set l \<and> l ! i \<noteq> maxv l \<and> l ! i \<noteq> 1" using assms by simp
    then show ?thesis unfolding list_ex_iff by blast
  next
    assume "l ! j \<noteq> maxv l"
    then have "l ! j \<in> set l \<and> l ! j \<noteq> maxv l \<and> l ! j \<noteq> 1" using assms by simp
    then show ?thesis unfolding list_ex_iff by blast
  qed
qed


subsection \<open>The not-implemented sentinel\<close>

text \<open>
  Claim C9. When the operands have been promoted, the common type is not a tensor type
  and its table marks the operation as not implemented, \<open>apply\<close> returns the
  \<open>NotImplemented\<close> singleton, no error is set, and the store is the one promotion
  left: no result instance is allocated.
\<close>

theorem apply_not_implemented:
  assumes "promote_step promote mode args h = Inr (hp, os, tp)"
    and "\<not> is_tensor (supp tp)"
    and "op_table (supp tp) op = DRJIT_OP_NOT_IMPLEMENTED"
  shows "apply_op (Suc fuel) supp promote mode op slot args h = Some (Ret NotImplemented hp)"
  using assms by (simp add: apply_op.simps apply_array_def)

theorem apply_not_implemented_witness:
  "promote_step no_promote Normal [0] [ArrayObj ''ArrayXi'' [4]]
      = Inr ([ArrayObj ''ArrayXi'' [4]], [0], ''ArrayXi'')
   \<and> \<not> is_tensor (ex_supp ''ArrayXi'')
   \<and> op_table (ex_supp ''ArrayXi'') 3 = DRJIT_OP_NOT_IMPLEMENTED
   \<and> apply_op (Suc 0) ex_supp no_promote Normal 3 (SlotInt 0) [0] [ArrayObj ''ArrayXi'' [4]]
      = Some (Ret NotImplemented [ArrayObj ''ArrayXi'' [4]])"
proof -
  have p: "promote_step no_promote Normal [0] [ArrayObj ''ArrayXi'' [4::int]]
      = Inr ([ArrayObj ''ArrayXi'' [4]], [0], ''ArrayXi'')"
    by (simp add: promote_step_def obj_type_def Let_def)
  have t: "\<not> is_tensor (ex_supp ''ArrayXi'')" by (simp add: ex_supp_def)
  have n: "op_table (ex_supp ''ArrayXi'') 3 = DRJIT_OP_NOT_IMPLEMENTED" by (simp add: ex_supp_def)
  show ?thesis
    using apply_not_implemented[where supp = ex_supp and tp = "''ArrayXi''" and promote = no_promote
        and mode = Normal and args = "[0]" and h = "[ArrayObj ''ArrayXi'' [4]]" and op = 3
        and hp = "[ArrayObj ''ArrayXi'' [4]]" and os = "[0]" and fuel = 0 and slot = "SlotInt 0"] p t n
    by simp
qed


subsection \<open>Incompatible sizes\<close>

text \<open>
  Claim C5. On a dynamic type served by the generic fallback, two operands whose
  lengths differ and are both other than 1 make \<open>apply\<close> fail: it returns the null
  pointer with the message of \<open>raise_incompatible_size_error\<close>, which contains the
  decimal text of the length of every operand, and the store is unchanged. For the
  lengths 2 and 3 the message reads \<open>invalid input array sizes (2, and 3)\<close>.
\<close>

theorem apply_incompatible_size:
  assumes "promote_step promote mode args h = Inr (hp, os, tp)"
    and "\<not> is_tensor (supp tp)"
    and "op_table (supp tp) op = DRJIT_OP_DEFAULT"
    and "shape0 (supp tp) = None"
    and "\<not> (mode = RichCompare \<and> comparison_rejected (supp tp) slot)"
    and "i < length os" "j < length os"
    and "len hp (os ! i) \<noteq> len hp (os ! j)" "len hp (os ! i) \<noteq> 1" "len hp (os ! j) \<noteq> 1"
  shows "apply_op (Suc fuel) supp promote mode op slot args h =
           Some (Ret (Failed (chain_error False slot op tp
                   (runtime_error (raise_incompatible_size_error (map (len hp) os))))) hp)
         \<and> (\<forall>k < length os. sublist (to_string (len hp (os ! k)))
               (chain_error False slot op tp
                   (runtime_error (raise_incompatible_size_error (map (len hp) os)))))"
proof (intro conjI allI impI)
  let ?l = "map (len hp) os"
  have ex: "list_ex (\<lambda>n. n \<noteq> maxv ?l \<and> n \<noteq> 1) ?l"
    by (rule sizes_mismatch_detected[of i _ j]) (use assms in auto)
  show "apply_op (Suc fuel) supp promote mode op slot args h =
           Some (Ret (Failed (chain_error False slot op tp
                   (runtime_error (raise_incompatible_size_error ?l)))) hp)"
  proof -
    have nr: "(mode = RichCompare \<and> comparison_rejected (supp tp) slot) = False"
      using assms(5) by simp
    show ?thesis
      using assms(1-4) ex by (simp add: apply_op.simps apply_array_def Let_def nr)
  qed
next
  fix k assume k: "k < length os"
  let ?l = "map (len hp) os"
  have "sublist (to_string (?l ! k)) (raise_incompatible_size_error ?l)"
    by (rule size_error_names_length) (use k in simp)
  then have "sublist (to_string (len hp (os ! k))) (raise_incompatible_size_error ?l)"
    using k by simp
  then show "sublist (to_string (len hp (os ! k)))
               (chain_error False slot op tp (runtime_error (raise_incompatible_size_error ?l)))"
    by (rule sublist_trans) (rule chain_error_what)
qed


theorem apply_incompatible_size_witness:
  "apply_op (Suc 0) ex_supp no_promote Normal 26 (SlotInt 0) [0, 1]
       [ArrayObj ''ArrayXf'' [1, 2], ArrayObj ''ArrayXf'' [10, 20, 30]]
     = Some (Ret (Failed ''ArrayXf.__add__(): invalid input array sizes (2, and 3)'')
          [ArrayObj ''ArrayXf'' [1, 2], ArrayObj ''ArrayXf'' [10, 20, 30]])
   \<and> sublist ''2'' ''ArrayXf.__add__(): invalid input array sizes (2, and 3)''
   \<and> sublist ''3'' ''ArrayXf.__add__(): invalid input array sizes (2, and 3)''"
proof -
  let ?h = "[ArrayObj ''ArrayXf'' [1, 2], ArrayObj ''ArrayXf'' [10, 20, 30::int]]"
  have p: "promote_step no_promote Normal [0, 1] ?h = Inr (?h, [0, 1], ''ArrayXf'')"
    by (simp add: promote_step_def obj_type_def Let_def)
  have t: "\<not> is_tensor (ex_supp ''ArrayXf'')" by (simp add: ex_supp_def)
  have d: "op_table (ex_supp ''ArrayXf'') 26 = DRJIT_OP_DEFAULT" by (simp add: ex_supp_def)
  have s: "shape0 (ex_supp ''ArrayXf'') = None" by (simp add: ex_supp_def)
  have l0: "len ?h ([0, 1] ! 0) = 2" and l1: "len ?h ([0, 1] ! 1) = 3"
    by (simp_all add: len_def elems_def)
  have m: "chain_error False (SlotInt 0) 26 ''ArrayXf''
             (runtime_error (raise_incompatible_size_error (map (len ?h) [0, 1])))
           = ''ArrayXf.__add__(): invalid input array sizes (2, and 3)''"
    by (simp add: chain_error_def op_names_def raise_incompatible_size_error_def len_def elems_def
          size_sep_def to_string.simps digit_char_def)
  have "apply_op (Suc 0) ex_supp no_promote Normal 26 (SlotInt 0) [0, 1] ?h =
           Some (Ret (Failed (chain_error False (SlotInt 0) 26 ''ArrayXf''
                   (runtime_error (raise_incompatible_size_error (map (len ?h) [0, 1]))))) ?h)
         \<and> (\<forall>k < length [0, 1::nat]. sublist (to_string (len ?h ([0, 1] ! k)))
               (chain_error False (SlotInt 0) 26 ''ArrayXf''
                   (runtime_error (raise_incompatible_size_error (map (len ?h) [0, 1])))))"
    using apply_incompatible_size[where supp = ex_supp and tp = "''ArrayXf''" and promote = no_promote
        and mode = Normal and args = "[0, 1]" and h = ?h and op = 26 and hp = ?h and os = "[0, 1]"
        and fuel = 0 and slot = "SlotInt 0" and i = 0 and j = 1] p t d s l0 l1
    by simp
  then have a: "apply_op (Suc 0) ex_supp no_promote Normal 26 (SlotInt 0) [0, 1] ?h =
           Some (Ret (Failed ''ArrayXf.__add__(): invalid input array sizes (2, and 3)'') ?h)"
    and b: "\<forall>k < length [0, 1::nat]. sublist (to_string (len ?h ([0, 1] ! k)))
               ''ArrayXf.__add__(): invalid input array sizes (2, and 3)''"
    unfolding m by blast+
  have "sublist (to_string (len ?h ([0, 1] ! 0))) ''ArrayXf.__add__(): invalid input array sizes (2, and 3)''"
    by (rule b[rule_format]) simp
  then have b0: "sublist ''2'' ''ArrayXf.__add__(): invalid input array sizes (2, and 3)''"
    unfolding l0 by (simp add: to_string.simps digit_char_def)
  have "sublist (to_string (len ?h ([0, 1] ! 1))) ''ArrayXf.__add__(): invalid input array sizes (2, and 3)''"
    by (rule b[rule_format]) simp
  then have b1: "sublist ''3'' ''ArrayXf.__add__(): invalid input array sizes (2, and 3)''"
    unfolding l1 by (simp add: to_string.simps digit_char_def)
  show ?thesis using a b0 b1 by (intro conjI)
qed


subsection \<open>Comparisons on structured types\<close>







subsection \<open>The common shape of tensor operands\<close>

















text \<open>
  An extent from \<open>2 ^ 63\<close> on is negative as a \<open>Py_ssize_t\<close>: with the shapes
  \<open>(2 ^ 63, 0)\<close> and \<open>(1, 0)\<close>, \<open>maxv\<close> returns 1 at dimension 0 and the shapes are
  reported as incompatible, while with \<open>(2 ^ 63 - 1, 0)\<close> and \<open>(1, 0)\<close> the common
  shape is \<open>(2 ^ 63 - 1, 0)\<close>.
\<close>

lemma common_shape_signed_extent:
  "common_shape [[2 ^ 63, 0], [1, 0]] = None
   \<and> common_shape [[2 ^ 63 - 1, 0], [1, 0]] = Some [2 ^ 63 - 1, 0]"
  by (simp add: common_shape_def dim_extent_def to_ssize_def to_size_def upt_rec)


subsection \<open>The fallback loop\<close>

text \<open>
  The loop, started at index \<open>j\<close> on a store in which the result instance already
  holds the values \<open>g 0, \<dots>, g (j - 1)\<close>, runs to the end without an exception when
  the nested operation succeeds on every tuple of elements, and leaves \<open>g 0, \<dots>,
  g (lr - 1)\<close> in the result instance. An operand may be the result instance itself,
  as in in-place mode: its element \<open>j\<close> is read before it is overwritten.
\<close>

lemma len_pos_valid: "0 < len h r \<Longrightarrow> r < length h"
  unfolding len_def elems_def by (cases "r < length h") auto




lemma index_start: "map (\<lambda>r. 0) os = map (\<lambda>n. broadcast_idx n 0) (map f os)"
  by (simp add: broadcast_idx_def)







lemma elems_fresh: "elems (h @ [ArrayObj t d]) (length h) = d"
  unfolding elems_def by simp

lemma apply_array_fixed_inplace:
  assumes "op_table (supp tp) op = DRJIT_OP_DEFAULT" "shape0 (supp tp) = Some n"
  shows "apply_array supp InPlace op slot move0 os tp h =
     (case fallback_loop (nested_call (supp tp) InPlace slot) os (map (\<lambda>r. n) os) n (hd os) 0
             (map (\<lambda>r. 0) os) h of
        (Some e, h2) \<Rightarrow> (Inl e, h2)
      | (None, h2) \<Rightarrow> finish False os (hd os) h2)"
  using assms by (simp add: apply_array_def Let_def)

lemma apply_array_fixed_fresh:
  assumes "op_table (supp tp) op = DRJIT_OP_DEFAULT" "shape0 (supp tp) = Some n"
    "mode \<noteq> InPlace" "\<not> (mode = RichCompare \<and> comparison_rejected (supp tp) slot)"
    "rt = (if mode = RichCompare then mask (supp tp) else tp)"
  shows "apply_array supp mode op slot move0 os tp h =
     (case fallback_loop (nested_call (supp tp) mode slot) os (map (\<lambda>r. n) os) n (length h) 0
             (map (\<lambda>r. 0) os) (h @ [ArrayObj rt (replicate n (zero (supp rt)))]) of
        (Some e, h2) \<Rightarrow> (Inl e, h2)
      | (None, h2) \<Rightarrow> finish move0 os (length h) h2)"
proof -
  have nr: "(mode = RichCompare \<and> comparison_rejected (supp tp) slot) = False"
    using assms(4) by simp
  show ?thesis
    using assms(1,2,3,5) by (simp add: apply_array_def Let_def nr inst_alloc_def)
qed

lemma apply_array_dyn_inplace:
  assumes "op_table (supp tp) op = DRJIT_OP_DEFAULT" "shape0 (supp tp) = None"
    "\<not> list_ex (\<lambda>n. n \<noteq> maxv (map (len h) os) \<and> n \<noteq> 1) (map (len h) os)"
    "maxv (map (len h) os) = hd (map (len h) os)"
  shows "apply_array supp InPlace op slot move0 os tp h =
     (case fallback_loop (nested_call (supp tp) InPlace slot) os (map (len h) os)
             (maxv (map (len h) os)) (hd os) 0 (map (\<lambda>r. 0) os) h of
        (Some e, h2) \<Rightarrow> (Inl e, h2)
      | (None, h2) \<Rightarrow> finish False os (hd os) h2)"
  using assms by (simp add: apply_array_def Let_def)

lemma apply_array_dyn_fresh:
  assumes "op_table (supp tp) op = DRJIT_OP_DEFAULT" "shape0 (supp tp) = None"
    "\<not> list_ex (\<lambda>n. n \<noteq> maxv (map (len h) os) \<and> n \<noteq> 1) (map (len h) os)"
    "\<not> (mode = InPlace \<and> maxv (map (len h) os) = hd (map (len h) os))"
    "\<not> (mode = RichCompare \<and> comparison_rejected (supp tp) slot)"
    "rt = (if mode = RichCompare then mask (supp tp) else tp)"
  shows "apply_array supp mode op slot move0 os tp h =
     (case fallback_loop (nested_call (supp tp) mode slot) os (map (len h) os)
             (maxv (map (len h) os)) (length h) 0 (map (\<lambda>r. 0) os)
             (h @ [ArrayObj rt (replicate (maxv (map (len h) os)) (zero (supp tp)))]) of
        (Some e, h2) \<Rightarrow> (Inl e, h2)
      | (None, h2) \<Rightarrow> finish move0 os (length h) h2)"
proof -
  have nr: "(mode = RichCompare \<and> comparison_rejected (supp tp) slot) = False"
    using assms(5) by simp
  have ni: "(mode = InPlace \<and> maxv (map (len h) os) = hd (map (len h) os)) = False"
    using assms(4) by simp
  show ?thesis
    using assms(1,2,3,6) by (simp add: apply_array_def Let_def nr ni inst_alloc_def)
qed



lemma set_item_frame:
  "set_item h r j v = Some h' \<Longrightarrow> length h' = length h \<and> (\<forall>q. q \<noteq> r \<longrightarrow> h' ! q = h ! q)"
  unfolding set_item_def by (auto split: if_splits)

lemma fallback_loop_frame:
  "fallback_loop py os l lr result j i h = (e, h') \<Longrightarrow>
     length h' = length h \<and> (\<forall>q. q \<noteq> result \<longrightarrow> h' ! q = h ! q)"
proof (induction py os l lr result j i h rule: fallback_loop.induct)
  case (1 py os l lr result j i h)
  show ?case
  proof (cases "j < lr")
    case False
    then show ?thesis using "1.prems" by (simp add: fallback_loop.simps)
  next
    case True
    let ?v = "map (\<lambda>(r, k). item h r k) (zip os i)"
    show ?thesis
    proof (cases "list_all (\<lambda>x. x \<noteq> None) ?v")
      case False
      then show ?thesis using "1.prems" True
        by (subst (asm) fallback_loop.simps) (simp add: Let_def)
    next
      case av: True
      show ?thesis
      proof (cases "py (map the ?v)")
        case (Inl x)
        then show ?thesis using "1.prems" True av
          by (subst (asm) fallback_loop.simps) (simp add: Let_def)
      next
        case (Inr vr)
        show ?thesis
        proof (cases "set_item h result j vr")
          case None
          then show ?thesis using "1.prems" True av Inr
            by (subst (asm) fallback_loop.simps) (simp add: Let_def)
        next
          case (Some hn)
          have rec: "fallback_loop py os l lr result (j + 1)
                       (map (\<lambda>(k, n). k + (if n = 1 then 0 else 1)) (zip i l)) hn = (e, h')"
            using "1.prems" True av Inr Some
            by (subst (asm) fallback_loop.simps) (simp add: Let_def)
          have ih: "length h' = length hn \<and> (\<forall>q. q \<noteq> result \<longrightarrow> h' ! q = hn ! q)"
            by (rule "1.IH"[OF True refl _ Inr Some rec]) (use av in simp)
          then show ?thesis using set_item_frame[OF Some] by simp
        qed
      qed
    qed
  qed
qed



lemma apply_op_array:
  assumes "promote_step promote mode args h = Inr (hp, os, tp)" "\<not> is_tensor (supp tp)"
    and "apply_array supp mode op slot (mode = InPlace \<and> hd os = hd args) os tp hp
           = (Inr r, h')"
  shows "apply_op (Suc fuel) supp promote mode op slot args h = Some (Ret r h')"
  using assms by (simp add: apply_op.simps)


subsection \<open>Element-wise results and broadcasting\<close>



subsection \<open>The result instance in in-place mode\<close>

lemma apply_op_array_err:
  assumes "promote_step promote mode args h = Inr (hp, os, tp)" "\<not> is_tensor (supp tp)"
    and "apply_array supp mode op slot (mode = InPlace \<and> hd os = hd args) os tp hp
           = (Inl e, h')"
  shows "apply_op (Suc fuel) supp promote mode op slot args h
           = Some (Ret (Failed (chain_error False slot op tp e)) h')"
  using assms by (simp add: apply_op.simps)

lemma reuse_outcome:
  assumes P: "promote_step promote InPlace args h = Inr (hp, os, tp)"
    and nt: "\<not> is_tensor (supp tp)"
    and aa: "apply_array supp InPlace op slot (InPlace = InPlace \<and> hd os = hd args) os tp hp =
       (case fallback_loop py os l lr (hd os) 0 i hp of
          (Some e, h2) \<Rightarrow> (Inl e, h2)
        | (None, h2) \<Rightarrow> finish False os (hd os) h2)"
  shows "\<exists>out h'. apply_op (Suc fuel) supp promote InPlace op slot args h = Some (Ret out h')
           \<and> length h' = length hp \<and> (out = Returned (hd os) \<or> (\<exists>m. out = Failed m))"
proof -
  obtain e h2 where loop: "fallback_loop py os l lr (hd os) 0 i hp = (e, h2)"
    by (cases "fallback_loop py os l lr (hd os) 0 i hp") auto
  have len2: "length h2 = length hp" using fallback_loop_frame[OF loop] by simp
  show ?thesis
  proof (cases e)
    case None
    then have "apply_array supp InPlace op slot (InPlace = InPlace \<and> hd os = hd args) os tp hp
                 = (Inr (Returned (hd os)), h2)"
      unfolding aa loop by (simp add: finish_def)
    then have "apply_op (Suc fuel) supp promote InPlace op slot args h
                 = Some (Ret (Returned (hd os)) h2)"
      by (rule apply_op_array[where supp = supp, OF P nt])
    then show ?thesis using len2 by auto
  next
    case (Some x)
    then have "apply_array supp InPlace op slot (InPlace = InPlace \<and> hd os = hd args) os tp hp
                 = (Inl x, h2)"
      unfolding aa loop by simp
    then have "apply_op (Suc fuel) supp promote InPlace op slot args h
                 = Some (Ret (Failed (chain_error False slot op tp x)) h2)"
      by (rule apply_op_array_err[where supp = supp, OF P nt])
    then show ?thesis using len2 by auto
  qed
qed

text \<open>
  Claim C2, as amended. In \<open>InPlace\<close> mode on the generic fallback, with compatible
  sizes, and when promotion has left the first operand in place (\<open>o[0]\<close> is the
  caller's first argument): if the length of the first operand is the result length
  \<open>lr\<close> (for a type of fixed size, \<open>shape[0]\<close>, the length of every instance), no
  instance is allocated and what is returned, when the loop succeeds, is the first
  operand itself; otherwise one new instance is allocated, and either the loop
  succeeds, the contents of the new instance are then moved over the first operand,
  which is returned, and no other instance has changed, or the loop fails and every
  instance that existed before, the first operand among them, is as it was.
\<close>

theorem inplace_result_identity:
  assumes P: "promote_step promote InPlace args h = Inr (hp, os, tp)"
    and nt: "\<not> is_tensor (supp tp)"
    and df: "op_table (supp tp) op = DRJIT_OP_DEFAULT"
    and ne: "os \<noteq> []"
    and same: "hd os = hd args"
    and wf: "\<forall>n. shape0 (supp tp) = Some n \<longrightarrow> len hp (hd args) = n"
    and ok: "shape0 (supp tp) = None \<longrightarrow>
               \<not> list_ex (\<lambda>n. n \<noteq> maxv (map (len hp) os) \<and> n \<noteq> 1) (map (len hp) os)"
    and lr: "lr = (case shape0 (supp tp) of Some n \<Rightarrow> n | None \<Rightarrow> maxv (map (len hp) os))"
  shows "\<exists>out h'. apply_op (Suc fuel) supp promote InPlace op slot args h = Some (Ret out h')
           \<and> (if len hp (hd args) = lr
               then length h' = length hp \<and> (out = Returned (hd args) \<or> (\<exists>m. out = Failed m))
               else (out = Returned (hd args) \<and> length h' = Suc (length hp)
                       \<and> h' ! hd args = h' ! length hp
                       \<and> (\<forall>r < length hp. r \<noteq> hd args \<longrightarrow> h' ! r = hp ! r))
                  \<or> ((\<exists>m. out = Failed m) \<and> (\<forall>r < length hp. h' ! r = hp ! r)))"
proof (cases "shape0 (supp tp)")
  case (Some n)
  then have eq: "len hp (hd args) = lr" using wf lr by simp
  have "\<exists>out h'. apply_op (Suc fuel) supp promote InPlace op slot args h = Some (Ret out h')
           \<and> length h' = length hp \<and> (out = Returned (hd os) \<or> (\<exists>m. out = Failed m))"
    by (rule reuse_outcome[where supp = supp, OF P nt])
       (rule apply_array_fixed_inplace[where supp = supp, OF df Some])
  then show ?thesis using eq same by auto
next
  case dyn: None
  then have lrm: "lr = maxv (map (len hp) os)" using lr by simp
  have ok: "\<not> list_ex (\<lambda>n. n \<noteq> maxv (map (len hp) os) \<and> n \<noteq> 1) (map (len hp) os)"
    using ok dyn by simp
  let ?l = "map (len hp) os"
  let ?py = "nested_call (supp tp) InPlace slot"
  let ?m0 = "InPlace = InPlace \<and> hd os = hd args"
  have hl: "hd ?l = len hp (hd args)" using ne same by (simp add: hd_map)
  show ?thesis
  proof (cases "len hp (hd args) = maxv ?l")
    case True
    have eq: "maxv ?l = hd ?l" using True hl by simp
    have "\<exists>out h'. apply_op (Suc fuel) supp promote InPlace op slot args h = Some (Ret out h')
           \<and> length h' = length hp \<and> (out = Returned (hd os) \<or> (\<exists>m. out = Failed m))"
      by (rule reuse_outcome[where supp = supp, OF P nt])
         (rule apply_array_dyn_inplace[where supp = supp, OF df dyn ok eq])
    then show ?thesis using True same lrm by auto
  next
    case False
    let ?h1 = "hp @ [ArrayObj tp (replicate (maxv ?l) (zero (supp tp)))]"
    have l0: "len hp (hd args) = 1"
    proof -
      have "hd args \<in> set os" using ne same by (metis hd_in_set)
      then have "len hp (hd args) \<in> set ?l" by simp
      then show ?thesis using ok False unfolding list_ex_iff by blast
    qed
    then have valid: "hd args < length hp" by (intro len_pos_valid) simp
    obtain e h2 where loop: "fallback_loop ?py os ?l (maxv ?l) (length hp) 0 (map (\<lambda>r. 0) os) ?h1 = (e, h2)"
      by (cases "fallback_loop ?py os ?l (maxv ?l) (length hp) 0 (map (\<lambda>r. 0) os) ?h1") auto
    have fr: "length h2 = Suc (length hp)" "\<forall>q. q \<noteq> length hp \<longrightarrow> h2 ! q = ?h1 ! q"
      using fallback_loop_frame[OF loop] by simp_all
    have old: "\<forall>r < length hp. h2 ! r = hp ! r"
      using fr(2) by (simp add: nth_append)
    have nf: "\<not> (InPlace = InPlace \<and> maxv ?l = hd ?l)" using False hl by simp
    have nrc: "\<not> (InPlace = RichCompare \<and> comparison_rejected (supp tp) slot)" by simp
    have rti: "tp = (if InPlace = RichCompare then mask (supp tp) else tp)" by simp
    have aa: "apply_array supp InPlace op slot ?m0 os tp hp =
       (case (e, h2) of (Some e, h2) \<Rightarrow> (Inl e, h2)
                      | (None, h2) \<Rightarrow> finish ?m0 os (length hp) h2)"
      by (simp only: apply_array_dyn_fresh[where supp = supp and tp = tp and op = op and slot = slot
          and ?move0.0 = ?m0 and os = os and h = hp and mode = InPlace and rt = tp,
          OF df dyn ok nf nrc rti] loop)
    show ?thesis
    proof (cases e)
      case None
      let ?h' = "h2[hd os := h2 ! length hp]"
      have "apply_array supp InPlace op slot ?m0 os tp hp = (Inr (Returned (hd os)), ?h')"
        using aa None same by (simp add: finish_def inst_replace_move_def)
      then have run: "apply_op (Suc fuel) supp promote InPlace op slot args h
                   = Some (Ret (Returned (hd os)) ?h')"
        by (rule apply_op_array[where supp = supp, OF P nt])
      have a: "length ?h' = Suc (length hp)" using fr(1) by simp
      have b: "?h' ! hd args = ?h' ! length hp"
        using valid same fr(1) by simp
      have c: "\<forall>r < length hp. r \<noteq> hd args \<longrightarrow> ?h' ! r = hp ! r"
        using old same by simp
      show ?thesis using run False a b c same lrm by auto
    next
      case (Some x)
      then have "apply_array supp InPlace op slot ?m0 os tp hp = (Inl x, h2)"
        using aa by simp
      then have "apply_op (Suc fuel) supp promote InPlace op slot args h
                   = Some (Ret (Failed (chain_error False slot op tp x)) h2)"
        by (rule apply_op_array_err[where supp = supp, OF P nt])
      then show ?thesis using False old lrm by auto
    qed
  qed
qed

theorem inplace_result_identity_witness:
  "(\<exists>out h'. apply_op (Suc 0) ex_supp no_promote InPlace 26 (SlotInt 0) [0, 1]
                 [ArrayObj ''ArrayXf'' [1, 2, 3], ArrayObj ''ArrayXf'' [10]] = Some (Ret out h')
       \<and> length h' = 2 \<and> (out = Returned 0 \<or> (\<exists>m. out = Failed m)))
   \<and> (\<exists>out h'. apply_op (Suc 0) ex_supp no_promote InPlace 26 (SlotInt 0) [0, 1]
                 [ArrayObj ''ArrayXf'' [10], ArrayObj ''ArrayXf'' [1, 2, 3]] = Some (Ret out h')
       \<and> ((out = Returned 0 \<and> length h' = 3 \<and> h' ! 0 = h' ! 2
              \<and> h' ! 1 = ArrayObj ''ArrayXf'' [1, 2, 3])
           \<or> ((\<exists>m. out = Failed m) \<and> h' ! 0 = ArrayObj ''ArrayXf'' [10]
                \<and> h' ! 1 = ArrayObj ''ArrayXf'' [1, 2, 3])))"
proof -
  let ?h = "[ArrayObj ''ArrayXf'' [1, 2, 3], ArrayObj ''ArrayXf'' [10::int]]"
  let ?k = "[ArrayObj ''ArrayXf'' [10], ArrayObj ''ArrayXf'' [1, 2, 3::int]]"
  have ph: "promote_step no_promote InPlace [0, 1] ?h = Inr (?h, [0, 1], ''ArrayXf'')"
    and pk: "promote_step no_promote InPlace [0, 1] ?k = Inr (?k, [0, 1], ''ArrayXf'')"
    by (simp_all add: promote_step_def obj_type_def Let_def)
  have t: "\<not> is_tensor (ex_supp ''ArrayXf'')" by (simp add: ex_supp_def)
  have d: "op_table (ex_supp ''ArrayXf'') 26 = DRJIT_OP_DEFAULT" by (simp add: ex_supp_def)
  have s: "shape0 (ex_supp ''ArrayXf'') = None" by (simp add: ex_supp_def)
  have lh: "map (len ?h) [0, 1] = [3, 1]" and lk: "map (len ?k) [0, 1] = [1, 3]"
    by (simp_all add: len_def elems_def)
  have okh: "\<not> list_ex (\<lambda>n. n \<noteq> maxv (map (len ?h) [0, 1]) \<and> n \<noteq> 1) (map (len ?h) [0, 1])"
    unfolding lh by simp
  have okk: "\<not> list_ex (\<lambda>n. n \<noteq> maxv (map (len ?k) [0, 1]) \<and> n \<noteq> 1) (map (len ?k) [0, 1])"
    unfolding lk by simp
  have ne: "[0, 1::nat] \<noteq> []" and sm: "hd [0, 1::nat] = hd [0, 1]" by simp_all
  have wfh: "\<forall>n. shape0 (ex_supp ''ArrayXf'') = Some n \<longrightarrow> len ?h (hd [0, 1]) = n"
    and wfk: "\<forall>n. shape0 (ex_supp ''ArrayXf'') = Some n \<longrightarrow> len ?k (hd [0, 1]) = n"
    using s by simp_all
  have okh': "shape0 (ex_supp ''ArrayXf'') = None \<longrightarrow>
      \<not> list_ex (\<lambda>n. n \<noteq> maxv (map (len ?h) [0, 1]) \<and> n \<noteq> 1) (map (len ?h) [0, 1])"
    using okh by simp
  have okk': "shape0 (ex_supp ''ArrayXf'') = None \<longrightarrow>
      \<not> list_ex (\<lambda>n. n \<noteq> maxv (map (len ?k) [0, 1]) \<and> n \<noteq> 1) (map (len ?k) [0, 1])"
    using okk by simp
  have lrh: "3 = (case shape0 (ex_supp ''ArrayXf'') of Some n \<Rightarrow> n | None \<Rightarrow> maxv (map (len ?h) [0, 1]))"
    unfolding s lh by simp
  have lrk: "3 = (case shape0 (ex_supp ''ArrayXf'') of Some n \<Rightarrow> n | None \<Rightarrow> maxv (map (len ?k) [0, 1]))"
    unfolding s lk by simp
  have ch: "len ?h (hd [0, 1]) = 3"
    by (simp add: len_def elems_def)
  have ck: "len ?k (hd [0, 1]) \<noteq> 3"
    by (simp add: len_def elems_def)
  note Ih = inplace_result_identity[where supp = ex_supp and tp = "''ArrayXf''" and promote = no_promote
        and args = "[0, 1]" and h = ?h and hp = ?h and os = "[0, 1]" and op = 26 and fuel = 0
        and slot = "SlotInt 0" and lr = 3, OF ph t d ne sm wfh okh' lrh]
  note Ik = inplace_result_identity[where supp = ex_supp and tp = "''ArrayXf''" and promote = no_promote
        and args = "[0, 1]" and h = ?k and hp = ?k and os = "[0, 1]" and op = 26 and fuel = 0
        and slot = "SlotInt 0" and lr = 3, OF pk t d ne sm wfk okk' lrk]
  from Ih obtain out h' where
    run: "apply_op (Suc 0) ex_supp no_promote InPlace 26 (SlotInt 0) [0, 1] ?h = Some (Ret out h')"
    and X: "if len ?h (hd [0, 1]) = 3
               then length h' = length ?h \<and> (out = Returned (hd [0, 1]) \<or> (\<exists>m. out = Failed m))
               else (out = Returned (hd [0, 1]) \<and> length h' = Suc (length ?h)
                       \<and> h' ! hd [0, 1] = h' ! length ?h
                       \<and> (\<forall>r < length ?h. r \<noteq> hd [0, 1] \<longrightarrow> h' ! r = ?h ! r))
                  \<or> ((\<exists>m. out = Failed m) \<and> (\<forall>r < length ?h. h' ! r = ?h ! r))"
    by (elim exE conjE)
  from X have "length h' = length ?h \<and> (out = Returned (hd [0, 1]) \<or> (\<exists>m. out = Failed m))"
    by (simp only: ch if_True)
  then have "length h' = 2 \<and> (out = Returned 0 \<or> (\<exists>m. out = Failed m))" by simp
  with run have a: "\<exists>out h'. apply_op (Suc 0) ex_supp no_promote InPlace 26 (SlotInt 0) [0, 1] ?h
             = Some (Ret out h')
       \<and> length h' = 2 \<and> (out = Returned 0 \<or> (\<exists>m. out = Failed m))"
    by (intro exI[of _ out] exI[of _ h'] conjI) simp_all
  from Ik obtain out2 k' where
    run2: "apply_op (Suc 0) ex_supp no_promote InPlace 26 (SlotInt 0) [0, 1] ?k = Some (Ret out2 k')"
    and Y: "if len ?k (hd [0, 1]) = 3
               then length k' = length ?k \<and> (out2 = Returned (hd [0, 1]) \<or> (\<exists>m. out2 = Failed m))
               else (out2 = Returned (hd [0, 1]) \<and> length k' = Suc (length ?k)
                       \<and> k' ! hd [0, 1] = k' ! length ?k
                       \<and> (\<forall>r < length ?k. r \<noteq> hd [0, 1] \<longrightarrow> k' ! r = ?k ! r))
                  \<or> ((\<exists>m. out2 = Failed m) \<and> (\<forall>r < length ?k. k' ! r = ?k ! r))"
    by (elim exE conjE)
  from Y have Z: "(out2 = Returned (hd [0, 1]) \<and> length k' = Suc (length ?k)
                       \<and> k' ! hd [0, 1] = k' ! length ?k
                       \<and> (\<forall>r < length ?k. r \<noteq> hd [0, 1] \<longrightarrow> k' ! r = ?k ! r))
                  \<or> ((\<exists>m. out2 = Failed m) \<and> (\<forall>r < length ?k. k' ! r = ?k ! r))"
    using ck by (simp only: if_False)
  have "(out2 = Returned 0 \<and> length k' = 3 \<and> k' ! 0 = k' ! 2
              \<and> k' ! 1 = ArrayObj ''ArrayXf'' [1, 2, 3])
           \<or> ((\<exists>m. out2 = Failed m) \<and> k' ! 0 = ArrayObj ''ArrayXf'' [10]
                \<and> k' ! 1 = ArrayObj ''ArrayXf'' [1, 2, 3])"
    using Z
  proof
    assume s1: "out2 = Returned (hd [0, 1]) \<and> length k' = Suc (length ?k)
                       \<and> k' ! hd [0, 1] = k' ! length ?k
                       \<and> (\<forall>r < length ?k. r \<noteq> hd [0, 1] \<longrightarrow> k' ! r = ?k ! r)"
    then have "1 < length ?k \<longrightarrow> 1 \<noteq> hd [0, 1::nat] \<longrightarrow> k' ! 1 = ?k ! 1" by blast
    then have "k' ! 1 = ArrayObj ''ArrayXf'' [1, 2, 3]" by simp
    then show ?thesis using s1 by (simp add: numeral_2_eq_2)
  next
    assume s2: "(\<exists>m. out2 = Failed m) \<and> (\<forall>r < length ?k. k' ! r = ?k ! r)"
    then have "0 < length ?k \<longrightarrow> k' ! 0 = ?k ! 0" "1 < length ?k \<longrightarrow> k' ! 1 = ?k ! 1" by blast+
    then have "k' ! 0 = ArrayObj ''ArrayXf'' [10]" "k' ! 1 = ArrayObj ''ArrayXf'' [1, 2, 3]" by simp_all
    then show ?thesis using s2 by simp
  qed
  with run2 have b: "\<exists>out h'. apply_op (Suc 0) ex_supp no_promote InPlace 26 (SlotInt 0) [0, 1] ?k
             = Some (Ret out h')
       \<and> ((out = Returned 0 \<and> length h' = 3 \<and> h' ! 0 = h' ! 2
              \<and> h' ! 1 = ArrayObj ''ArrayXf'' [1, 2, 3])
           \<or> ((\<exists>m. out = Failed m) \<and> h' ! 0 = ArrayObj ''ArrayXf'' [10]
                \<and> h' ! 1 = ArrayObj ''ArrayXf'' [1, 2, 3]))"
    by (intro exI[of _ out2] exI[of _ k'] conjI) simp_all
  show ?thesis using a b by (intro conjI)
qed

text \<open>
  When promotion has replaced the first operand by a converted copy, the guard
  \<open>o[0].is(first(args...))\<close> is false: with lengths 1 and 3, the new result is
  returned as it is, and neither the caller's first argument nor the converted copy is
  overwritten.
\<close>

theorem inplace_promoted_counterexample:
  "apply_op (Suc 0) ex_supp ex_promote InPlace 26 (SlotInt 0) [0, 1]
       [ArrayObj ''ArrayXi'' [5], ArrayObj ''ArrayXf'' [1, 2, 3]]
     = Some (Ret (Returned 3)
          [ArrayObj ''ArrayXi'' [5], ArrayObj ''ArrayXf'' [1, 2, 3], ArrayObj ''ArrayXf'' [5],
           ArrayObj ''ArrayXf'' [6, 7, 8]])"
  by (simp add: apply_op.simps promote_step_def obj_type_def Let_def ex_supp_def ex_promote_def
        apply_array_def elems_def len_def inst_alloc_def finish_def fallback_loop.simps item_def
        set_item_def nested_call_def nth_append)

subsection \<open>Stores that only grow\<close>

text \<open>
  Outside in-place mode \<open>apply\<close> never writes to an instance that existed before the
  call: the store it leaves extends the store it was given, provided promotion behaves
  so (\<open>promote_extends\<close>).
\<close>

lemma prefix_nth: "prefix xs ys \<Longrightarrow> i < length xs \<Longrightarrow> ys ! i = xs ! i"
  by (auto simp: prefix_def nth_append)

lemma prefix_trans: "prefix xs ys \<Longrightarrow> prefix ys zs \<Longrightarrow> prefix xs zs"
  by (auto simp: prefix_def)

lemma prefix_snoc: "prefix xs ys \<Longrightarrow> prefix xs (ys @ zs)"
  by (auto simp: prefix_def)

lemma prefix_of_frame:
  assumes "length h2 = Suc (length h)" "\<forall>q. q \<noteq> length h \<longrightarrow> h2 ! q = (h @ [x]) ! q"
  shows "prefix h h2"
proof -
  have "h2 = h @ [h2 ! length h]"
    using assms by (intro nth_equalityI) (auto simp: nth_append less_Suc_eq)
  then show ?thesis by (metis prefixI)
qed

lemma loop_fresh_frame:
  assumes "fallback_loop py os l lr (length h) j i (h @ [x]) = (e, h2)"
  shows "prefix h h2"
  using fallback_loop_frame[OF assms] by (intro prefix_of_frame[where x = x]) simp_all

lemma finish_False: "finish False os result h = (Inr (Returned result), h)"
  by (simp add: finish_def)

lemma apply_array_frame:
  assumes m: "mode \<noteq> InPlace" and run: "apply_array supp mode op slot False os tp h = (r, h')"
  shows "prefix h h'"
proof (cases "mode = RichCompare \<and> comparison_rejected (supp tp) slot")
  case True
  then show ?thesis using run
    by (cases "op_table (supp tp) op") (auto simp: apply_array_def)
next
  case nr: False
  then have nr': "(mode = RichCompare \<and> comparison_rejected (supp tp) slot) = False" by simp
  show ?thesis
  proof (cases "op_table (supp tp) op")
    case DRJIT_OP_NOT_IMPLEMENTED
    then show ?thesis using run by (simp add: apply_array_def)
  next
    case (Kernel k)
    then show ?thesis using run
      by (auto simp: apply_array_def nr' inst_alloc_def finish_def Let_def)
  next
    case df: DRJIT_OP_DEFAULT
    let ?rt = "if mode = RichCompare then mask (supp tp) else tp"
    show ?thesis
    proof (cases "shape0 (supp tp)")
      case (Some n)
      let ?x = "ArrayObj ?rt (replicate n (zero (supp ?rt)))"
      obtain e h2 where loop: "fallback_loop (nested_call (supp tp) mode slot) os (map (\<lambda>r. n) os) n
            (length h) 0 (map (\<lambda>r. 0) os) (h @ [?x]) = (e, h2)"
        by (cases "fallback_loop (nested_call (supp tp) mode slot) os (map (\<lambda>r. n) os) n
            (length h) 0 (map (\<lambda>r. 0) os) (h @ [?x])") auto
      have p: "prefix h h2" by (rule loop_fresh_frame[OF loop])
      have "apply_array supp mode op slot False os tp h =
              (case (e, h2) of (Some e, h2) \<Rightarrow> (Inl e, h2)
                             | (None, h2) \<Rightarrow> finish False os (length h) h2)"
        by (simp only: apply_array_fixed_fresh[where supp = supp and rt = ?rt, OF df Some m nr refl] loop)
      then have "h' = h2" using run by (cases e) (auto simp: finish_False)
      then show ?thesis using p by simp
    next
      case None
      let ?l = "map (len h) os"
      show ?thesis
      proof (cases "list_ex (\<lambda>n. n \<noteq> maxv ?l \<and> n \<noteq> 1) ?l")
        case True
        then have "h' = h" using run df None
          by (simp add: apply_array_def nr' Let_def)
        then show ?thesis by simp
      next
        case False
        let ?x = "ArrayObj ?rt (replicate (maxv ?l) (zero (supp tp)))"
        obtain e h2 where loop: "fallback_loop (nested_call (supp tp) mode slot) os ?l (maxv ?l)
              (length h) 0 (map (\<lambda>r. 0) os) (h @ [?x]) = (e, h2)"
          by (cases "fallback_loop (nested_call (supp tp) mode slot) os ?l (maxv ?l)
              (length h) 0 (map (\<lambda>r. 0) os) (h @ [?x])") auto
        have p: "prefix h h2" by (rule loop_fresh_frame[OF loop])
        have ni: "\<not> (mode = InPlace \<and> maxv ?l = hd ?l)" using m by simp
        have "apply_array supp mode op slot False os tp h =
                (case (e, h2) of (Some e, h2) \<Rightarrow> (Inl e, h2)
                               | (None, h2) \<Rightarrow> finish False os (length h) h2)"
          by (simp only: apply_array_dyn_fresh[where supp = supp and rt = ?rt,
                OF df None False ni nr refl] loop)
        then have "h' = h2" using run by (cases e) (auto simp: finish_False)
        then show ?thesis using p by simp
      qed
    qed
  qed
qed

lemma promote_step_frame:
  assumes "promote_extends promote" "promote_step promote mode args h = Inr (hp, os, tp)"
  shows "prefix h hp"
proof (cases "list_all (\<lambda>r. obj_type h r = obj_type h (hd args)) args")
  case True
  then have "hp = h" using assms(2) unfolding promote_step_def by (simp add: Let_def)
  then show ?thesis by simp
next
  case False
  then obtain os' where "promote h args (mode = Select) = Inr (hp, os')"
    using assms(2) unfolding promote_step_def by (auto simp: Let_def split: sum.splits)
  then show ?thesis using assms(1) unfolding promote_extends_def by blast
qed

lemma tensor_broadcast_frame:
  "tensor_broadcast h a src dst = Done (h', a') \<Longrightarrow> prefix h h'"
  unfolding tensor_broadcast_def gather_def inst_alloc_def
  by (auto simp: Let_def split: if_splits option.splits)

lemma broadcast_all_frame:
  "broadcast_all h arrays shapes shape = Done (h', as') \<Longrightarrow> prefix h h'"
proof (induction h arrays shapes shape arbitrary: h' as' rule: broadcast_all.induct)
  case (1 h a arrays sh shapes shape)
  from "1.prems" obtain h1 a1 where t: "tensor_broadcast h a sh shape = Done (h1, a1)"
    by (auto split: step.splits)
  from "1.prems" t obtain as1 where r: "broadcast_all h1 arrays shapes shape = Done (h', as1)"
    by (auto split: step.splits)
  have "prefix h h1" by (rule tensor_broadcast_frame[OF t])
  moreover have "prefix h1 h'" by (rule "1.IH"[OF t refl r])
  ultimately show ?case by (rule prefix_trans)
qed auto

lemma apply_tensor_run:
  assumes P: "promote_step promote mode args h = Inr (hp, os, tp)"
    and run: "apply_tensor nested supp promote mode op slot args h = Some (Ret out h')"
  shows "((\<exists>m. out = Failed m) \<and> h' = hp)
       \<or> (\<exists>h1 arrs o2 h2. prefix hp h1
            \<and> nested (if mode = InPlace then Normal else mode) arrs h1 = Some (Ret o2 h2)
            \<and> (((\<exists>m. out = Failed m) \<and> h' = h2)
               \<or> (\<exists>rt ra sh. o2 = Returned ra \<and>
                    (if mode = InPlace \<and> hd os = hd args
                     then out = Returned (hd os)
                          \<and> h' = inst_replace_move (h2 @ [TensorObj rt ra sh]) (hd os) (length h2)
                     else out = Returned (length h2) \<and> h' = h2 @ [TensorObj rt ra sh]))))"
proof -
  let ?arrays = "map (tensor_array hp) os" and ?shapes = "map (tensor_shape hp) os"
  show ?thesis
  proof (cases "list_all (\<lambda>a. a \<noteq> None) ?arrays")
    case False
    then have "(\<exists>m. out = Failed m) \<and> h' = hp"
      using run P by (auto simp: apply_tensor_def Let_def)
    then show ?thesis by (rule disjI1)
  next
    case av: True
    show ?thesis
    proof (cases "common_shape ?shapes")
      case None
      then have "(\<exists>m. out = Failed m) \<and> h' = hp"
        using run P av by (auto simp: apply_tensor_def Let_def)
      then show ?thesis by (rule disjI1)
    next
      case (Some shape)
      let ?bc = "if length args > 1 then broadcast_all hp (map the ?arrays) ?shapes shape
                 else Done (hp, map the ?arrays)"
      show ?thesis
      proof (cases ?bc)
        case (Throws e)
        then have "(\<exists>m. out = Failed m) \<and> h' = hp"
          using run P av Some by (auto simp: apply_tensor_def Let_def)
        then show ?thesis by (rule disjI1)
      next
        case Undefined
        then show ?thesis using run P av Some by (simp add: apply_tensor_def Let_def)
      next
        case (Done pr)
        obtain h1 arrs where pr: "pr = (h1, arrs)" by (cases pr)
        have p1: "prefix hp h1"
          using Done pr by (auto split: if_splits dest: broadcast_all_frame)
        let ?nm = "if mode = InPlace then Normal else mode"
        obtain o2 h2 where n: "nested ?nm arrs h1 = Some (Ret o2 h2)"
          using run P av Some Done pr
          by (cases "nested ?nm arrs h1"; cases "the (nested ?nm arrs h1)")
             (auto simp: apply_tensor_def Let_def)
        let ?rt = "if mode = RichCompare then mask (supp (obj_type hp (os ! 0))) else tp"
        have unf: "apply_tensor nested supp promote mode op slot args h =
            (case o2 of
               Failed m \<Rightarrow> Some (Ret (Failed (chain_error True slot op tp
                                  (runtime_error ''Operation on underlying array failed.''))) h2)
             | NotImplemented \<Rightarrow> Some (Ret (Failed (chain_error True slot op tp python_error)) h2)
             | Returned ra \<Rightarrow>
                 (if mode = InPlace \<and> hd os = hd args
                  then Some (Ret (Returned (hd os))
                         (inst_replace_move (h2 @ [TensorObj ?rt ra shape]) (hd os) (length h2)))
                  else Some (Ret (Returned (length h2)) (h2 @ [TensorObj ?rt ra shape]))))"
          using P av Some Done pr n by (cases o2) (simp_all add: apply_tensor_def Let_def)
        have "((\<exists>m. out = Failed m) \<and> h' = h2)
               \<or> (\<exists>rt ra sh. o2 = Returned ra \<and>
                    (if mode = InPlace \<and> hd os = hd args
                     then out = Returned (hd os)
                          \<and> h' = inst_replace_move (h2 @ [TensorObj rt ra sh]) (hd os) (length h2)
                     else out = Returned (length h2) \<and> h' = h2 @ [TensorObj rt ra sh]))"
        proof (cases o2)
          case (Failed m)
          then have "(\<exists>m. out = Failed m) \<and> h' = h2" using run unf by auto
          then show ?thesis by (rule disjI1)
        next
          case NotImplemented
          then have "(\<exists>m. out = Failed m) \<and> h' = h2" using run unf by auto
          then show ?thesis by (rule disjI1)
        next
          case (Returned ra)
          have "o2 = Returned ra \<and>
                    (if mode = InPlace \<and> hd os = hd args
                     then out = Returned (hd os)
                          \<and> h' = inst_replace_move (h2 @ [TensorObj ?rt ra shape]) (hd os) (length h2)
                     else out = Returned (length h2) \<and> h' = h2 @ [TensorObj ?rt ra shape])"
            using Returned run unf by (cases "mode = InPlace \<and> hd os = hd args") auto
          then show ?thesis by (intro disjI2 exI[of _ ?rt] exI[of _ ra] exI[of _ shape])
        qed
        then show ?thesis using p1 n by blast
      qed
    qed
  qed
qed

lemma apply_tensor_frame:
  assumes pe: "promote_extends promote"
    and nf: "\<And>m a h1 out h2. m \<noteq> InPlace \<Longrightarrow> nested m a h1 = Some (Ret out h2) \<Longrightarrow> prefix h1 h2"
    and m: "mode \<noteq> InPlace"
    and run: "apply_tensor nested supp promote mode op slot args h = Some (Ret out h')"
  shows "prefix h h'"
proof (cases "promote_step promote mode args h")
  case (Inl e)
  then show ?thesis using run by (simp add: apply_tensor_def)
next
  case (Inr x)
  obtain hp os tp where P: "promote_step promote mode args h = Inr (hp, os, tp)"
    using Inr by (cases x) auto
  have p0: "prefix h hp" by (rule promote_step_frame[OF pe P])
  have "prefix hp h'"
    using apply_tensor_run[OF P run]
  proof (elim disjE exE conjE)
    assume "h' = hp"
    then show ?thesis by simp
  next
    fix h1 arrs o2 h2
    assume a: "prefix hp h1" "nested (if mode = InPlace then Normal else mode) arrs h1 = Some (Ret o2 h2)"
      "h' = h2"
    have "prefix h1 h2" using nf[OF _ a(2)] m by simp
    then show ?thesis using a by (auto intro: prefix_trans)
  next
    fix h1 arrs o2 h2 rt ra sh
    assume a: "prefix hp h1" "nested (if mode = InPlace then Normal else mode) arrs h1 = Some (Ret o2 h2)"
      "if mode = InPlace \<and> hd os = hd args
                     then out = Returned (hd os)
                          \<and> h' = inst_replace_move (h2 @ [TensorObj rt ra sh]) (hd os) (length h2)
                     else out = Returned (length h2) \<and> h' = h2 @ [TensorObj rt ra sh]"
    have "prefix h1 h2" using nf[OF _ a(2)] m by simp
    then have "prefix hp h2" using a(1) by (auto intro: prefix_trans)
    then show ?thesis using a(3) m by (auto intro: prefix_snoc)
  qed
  then show ?thesis using p0 by (auto intro: prefix_trans)
qed

lemma apply_op_frame:
  assumes pe: "promote_extends promote"
  shows "mode \<noteq> InPlace \<Longrightarrow> apply_op fuel supp promote mode op slot args h = Some (Ret out h')
           \<Longrightarrow> prefix h h'"
proof (induction fuel arbitrary: mode args h out h')
  case 0
  then show ?case by (simp add: apply_op.simps)
next
  case (Suc fuel)
  show ?case
  proof (cases "promote_step promote mode args h")
    case (Inl e)
    then show ?thesis using Suc.prems by (simp add: apply_op.simps)
  next
    case (Inr x)
    obtain hp os tp where P: "promote_step promote mode args h = Inr (hp, os, tp)"
      using Inr by (cases x) auto
    have p0: "prefix h hp" by (rule promote_step_frame[OF pe P])
    show ?thesis
    proof (cases "is_tensor (supp tp)")
      case True
      then have run: "apply_tensor (\<lambda>m a h'. apply_op fuel supp promote m op slot a h')
              supp promote mode op slot os hp = Some (Ret out h')"
        using Suc.prems P by (simp add: apply_op.simps)
      have "prefix hp h'"
        by (rule apply_tensor_frame[OF pe _ Suc.prems(1) run]) (rule Suc.IH)
      then show ?thesis using p0 by (auto intro: prefix_trans)
    next
      case False
      obtain r h1 where aa: "apply_array supp mode op slot False os tp hp = (r, h1)"
        by (cases "apply_array supp mode op slot False os tp hp") auto
      then have "h' = h1" using Suc.prems P False
        by (cases r) (auto simp: apply_op.simps)
      moreover have "prefix hp h1" by (rule apply_array_frame[OF Suc.prems(1) aa])
      ultimately show ?thesis using p0 by (auto intro: prefix_trans)
    qed
  qed
qed

lemma apply_tensor_demoted:
  "apply_tensor nested supp promote InPlace op slot args h
     = apply_tensor (\<lambda>m. nested Normal) supp promote InPlace op slot args h"
  by (simp add: apply_tensor_def)


lemma ex_tensor_run:
  "apply_tensor (\<lambda>m. apply_op (Suc 0) ex_supp no_promote m 26 (SlotInt 0)) ex_supp no_promote InPlace
      26 (SlotInt 0) [2, 3]
      [ArrayObj ''ArrayXf'' [100, 200, 300], ArrayObj ''ArrayXf'' [1, 2, 3, 4],
       TensorObj ''TensorXf'' 0 [3, 1], TensorObj ''TensorXf'' 1 [1, 4]]
   = Some (Ret (Returned 2)
      [ArrayObj ''ArrayXf'' [100, 200, 300], ArrayObj ''ArrayXf'' [1, 2, 3, 4],
       TensorObj ''TensorXf'' 6 [3, 4], TensorObj ''TensorXf'' 1 [1, 4],
       ArrayObj ''ArrayXf'' [100, 100, 100, 100, 200, 200, 200, 200, 300, 300, 300, 300],
       ArrayObj ''ArrayXf'' [1, 2, 3, 4, 1, 2, 3, 4, 1, 2, 3, 4],
       ArrayObj ''ArrayXf'' [101, 102, 103, 104, 201, 202, 203, 204, 301, 302, 303, 304],
       TensorObj ''TensorXf'' 6 [3, 4]])"
  by (simp add: apply_op.simps promote_step_def obj_type_def Let_def ex_supp_def no_promote_def
        apply_tensor_def tensor_array_def tensor_shape_def common_shape_def dim_extent_def to_ssize_def to_size_def
        tensor_broadcast_def broadcast_index_def gather_def upt_rec
        apply_array_def elems_def len_def inst_alloc_def finish_def fallback_loop.simps item_def
        set_item_def nested_call_def nth_append inst_replace_move_def)

subsection \<open>Runs that return\<close>

text \<open>
  The recursion counter runs out only through tensor types: on a type that is not a
  tensor type one unit suffices for \<open>apply\<close> to return, and \<open>apply_tensor\<close> returns
  (or its behaviour is undefined) whenever the nested \<open>apply\<close> on the flat arrays
  does.
\<close>

lemma apply_op_flat_returns:
  assumes "\<And>hp os tp. promote_step promote mode args h = Inr (hp, os, tp) \<Longrightarrow> \<not> is_tensor (supp tp)"
  shows "apply_op (Suc fuel) supp promote mode op slot args h \<noteq> None"
proof (cases "promote_step promote mode args h")
  case (Inl e)
  then show ?thesis by (simp add: apply_op.simps)
next
  case (Inr x)
  obtain hp os tp where P: "promote_step promote mode args h = Inr (hp, os, tp)"
    using Inr by (cases x) auto
  have nt: "\<not> is_tensor (supp tp)" by (rule assms[OF P])
  obtain r h1 where aa: "apply_array supp mode op slot (mode = InPlace \<and> hd os = hd args) os tp hp
                          = (r, h1)"
    by (cases "apply_array supp mode op slot (mode = InPlace \<and> hd os = hd args) os tp hp") auto
  show ?thesis using P nt aa by (cases r) (simp_all add: apply_op.simps)
qed

lemma apply_tensor_returns:
  assumes "\<And>m a h1. nested m a h1 \<noteq> None"
  shows "apply_tensor nested supp promote mode op slot args h \<noteq> None"
proof (cases "promote_step promote mode args h")
  case (Inl e)
  then show ?thesis by (simp add: apply_tensor_def)
next
  case (Inr x)
  obtain hp os tp where P: "promote_step promote mode args h = Inr (hp, os, tp)"
    using Inr by (cases x) auto
  let ?arrays = "map (tensor_array hp) os" and ?shapes = "map (tensor_shape hp) os"
  show ?thesis
  proof (cases "list_all (\<lambda>a. a \<noteq> None) ?arrays")
    case False
    then show ?thesis using P by (simp add: apply_tensor_def Let_def)
  next
    case av: True
    show ?thesis
    proof (cases "common_shape ?shapes")
      case None
      then show ?thesis using P av by (simp add: apply_tensor_def Let_def)
    next
      case (Some shape)
      let ?bc = "if length args > 1 then broadcast_all hp (map the ?arrays) ?shapes shape
                 else Done (hp, map the ?arrays)"
      show ?thesis
      proof (cases ?bc)
        case (Throws e)
        then show ?thesis using P av Some by (simp add: apply_tensor_def Let_def)
      next
        case Undefined
        then show ?thesis using P av Some by (simp add: apply_tensor_def Let_def)
      next
        case (Done pr)
        obtain h1 arrs where pr: "pr = (h1, arrs)" by (cases pr)
        let ?nm = "if mode = InPlace then Normal else mode"
        obtain rn where n: "nested ?nm arrs h1 = Some rn"
          using assms[of ?nm arrs h1] by auto
        show ?thesis
        proof (cases rn)
          case Crash
          then show ?thesis using P av Some Done pr n by (simp add: apply_tensor_def Let_def)
        next
          case (Ret o2 h2)
          then show ?thesis using P av Some Done pr n
            by (cases o2) (simp_all add: apply_tensor_def Let_def)
        qed
      qed
    qed
  qed
qed

subsection \<open>Tensor operands in in-place mode\<close>

text \<open>
  Claim C10. A run of \<open>apply_tensor\<close> in \<open>InPlace\<close> mode calls the nested \<open>apply\<close> on
  the flat arrays in \<open>Normal\<close> mode only. Every instance that existed after promotion,
  other than the first operand, is unchanged at the end, the flat array of the first
  operand among them. When the run fails, the store merely extends the one promotion
  left, so the first operand is unchanged too. When it succeeds, the result tensor is
  first built as a new instance on a store that still extends the one promotion left,
  and then, if \<open>o[0]\<close> is the caller's first argument, moved over the first operand
  by the one \<open>inst_replace_move\<close>, the first operand being what is returned.
\<close>

theorem tensor_inplace_update:
  assumes pe: "promote_extends promote"
    and P: "promote_step promote InPlace args h = Inr (hp, os, tp)"
    and run: "apply_tensor (\<lambda>m. apply_op fuel supp promote m op slot) supp promote InPlace op slot
                args h = Some (Ret out h')"
  shows "apply_tensor (\<lambda>m. apply_op fuel supp promote Normal op slot) supp promote InPlace op slot
                args h = Some (Ret out h')
       \<and> (\<forall>r < length hp. r \<noteq> hd os \<longrightarrow> h' ! r = hp ! r)
       \<and> ((\<exists>m. out = Failed m) \<longrightarrow> prefix hp h')
       \<and> out \<noteq> NotImplemented
       \<and> (\<forall>res. out = Returned res \<longrightarrow>
            (\<exists>hc rt ra sh. prefix hp hc \<and>
               (if hd os = hd args
                then res = hd os
                     \<and> h' = inst_replace_move (hc @ [TensorObj rt ra sh]) (hd os) (length hc)
                else res = length hc \<and> h' = hc @ [TensorObj rt ra sh])))"
proof -
  have dem: "apply_tensor (\<lambda>m. apply_op fuel supp promote Normal op slot) supp promote InPlace op slot
                args h = Some (Ret out h')"
    using run apply_tensor_demoted[of "\<lambda>m. apply_op fuel supp promote m op slot"] by simp
  have rest: "(\<forall>r < length hp. r \<noteq> hd os \<longrightarrow> h' ! r = hp ! r)
       \<and> ((\<exists>m. out = Failed m) \<longrightarrow> prefix hp h')
       \<and> out \<noteq> NotImplemented
       \<and> (\<forall>res. out = Returned res \<longrightarrow>
            (\<exists>hc rt ra sh. prefix hp hc \<and>
               (if hd os = hd args
                then res = hd os
                     \<and> h' = inst_replace_move (hc @ [TensorObj rt ra sh]) (hd os) (length hc)
                else res = length hc \<and> h' = hc @ [TensorObj rt ra sh])))"
    using apply_tensor_run[OF P run]
  proof (elim disjE exE conjE)
    fix m assume "out = Failed m" "h' = hp"
    then show ?thesis by simp
  next
    fix h1 arrs o2 h2 m
    assume a: "prefix hp h1"
      "apply_op fuel supp promote (if InPlace = InPlace then Normal else InPlace) op slot arrs h1
         = Some (Ret o2 h2)"
      "out = Failed m" "h' = h2"
    have "prefix h1 h2" using apply_op_frame[OF pe, of Normal fuel supp op slot arrs h1 o2 h2] a(2) by simp
    then have p: "prefix hp h2" using a(1) by (rule prefix_trans[rotated])
    then show ?thesis using a(3,4) by (simp add: prefix_nth)
  next
    fix h1 arrs o2 h2 rt ra sh
    assume a: "prefix hp h1"
      "apply_op fuel supp promote (if InPlace = InPlace then Normal else InPlace) op slot arrs h1
         = Some (Ret o2 h2)"
      "o2 = Returned ra"
      "if InPlace = InPlace \<and> hd os = hd args
         then out = Returned (hd os)
              \<and> h' = inst_replace_move (h2 @ [TensorObj rt ra sh]) (hd os) (length h2)
         else out = Returned (length h2) \<and> h' = h2 @ [TensorObj rt ra sh]"
    have "prefix h1 h2" using apply_op_frame[OF pe, of Normal fuel supp op slot arrs h1 o2 h2] a(2) by simp
    then have p: "prefix hp h2" using a(1) by (rule prefix_trans[rotated])
    then have le: "length hp \<le> length h2" by (rule prefix_length_le)
    show ?thesis
    proof (cases "hd os = hd args")
      case True
      then have o: "out = Returned (hd os)"
        and h: "h' = inst_replace_move (h2 @ [TensorObj rt ra sh]) (hd os) (length h2)"
        using a(4) by simp_all
      have fr: "\<forall>r < length hp. r \<noteq> hd os \<longrightarrow> h' ! r = hp ! r"
        using p le unfolding h inst_replace_move_def by (simp add: nth_append prefix_nth)
      have ex: "\<exists>hc rt ra sh. prefix hp hc \<and>
               (if hd os = hd args
                then hd os = hd os
                     \<and> h' = inst_replace_move (hc @ [TensorObj rt ra sh]) (hd os) (length hc)
                else hd os = length hc \<and> h' = hc @ [TensorObj rt ra sh])"
        using p h True by (intro exI[of _ h2] exI[of _ rt] exI[of _ ra] exI[of _ sh]) simp
      show ?thesis using fr ex o by simp
    next
      case False
      then have o: "out = Returned (length h2)" and h: "h' = h2 @ [TensorObj rt ra sh]"
        using a(4) by simp_all
      have fr: "\<forall>r < length hp. r \<noteq> hd os \<longrightarrow> h' ! r = hp ! r"
        using p le unfolding h by (simp add: nth_append prefix_nth)
      have ex: "\<exists>hc rt ra sh. prefix hp hc \<and>
               (if hd os = hd args
                then length h2 = hd os
                     \<and> h' = inst_replace_move (hc @ [TensorObj rt ra sh]) (hd os) (length hc)
                else length h2 = length hc \<and> h' = hc @ [TensorObj rt ra sh])"
        using p h False by (intro exI[of _ h2] exI[of _ rt] exI[of _ ra] exI[of _ sh]) simp
      show ?thesis using fr ex o by simp
    qed
  qed
  show ?thesis using dem rest by (rule conjI)
qed


theorem tensor_inplace_update_witness:
  "promote_extends no_promote
   \<and> promote_step no_promote InPlace [2, 3]
        [ArrayObj ''ArrayXf'' [100, 200, 300], ArrayObj ''ArrayXf'' [1, 2, 3, 4],
         TensorObj ''TensorXf'' 0 [3, 1], TensorObj ''TensorXf'' 1 [1, 4]]
       = Inr ([ArrayObj ''ArrayXf'' [100, 200, 300], ArrayObj ''ArrayXf'' [1, 2, 3, 4],
               TensorObj ''TensorXf'' 0 [3, 1], TensorObj ''TensorXf'' 1 [1, 4]], [2, 3], ''TensorXf'')
   \<and> apply_tensor (\<lambda>m. apply_op (Suc 0) ex_supp no_promote Normal 26 (SlotInt 0)) ex_supp no_promote
        InPlace 26 (SlotInt 0) [2, 3]
        [ArrayObj ''ArrayXf'' [100, 200, 300], ArrayObj ''ArrayXf'' [1, 2, 3, 4],
         TensorObj ''TensorXf'' 0 [3, 1], TensorObj ''TensorXf'' 1 [1, 4]]
     = Some (Ret (Returned 2)
        [ArrayObj ''ArrayXf'' [100, 200, 300], ArrayObj ''ArrayXf'' [1, 2, 3, 4],
         TensorObj ''TensorXf'' 6 [3, 4], TensorObj ''TensorXf'' 1 [1, 4],
         ArrayObj ''ArrayXf'' [100, 100, 100, 100, 200, 200, 200, 200, 300, 300, 300, 300],
         ArrayObj ''ArrayXf'' [1, 2, 3, 4, 1, 2, 3, 4, 1, 2, 3, 4],
         ArrayObj ''ArrayXf'' [101, 102, 103, 104, 201, 202, 203, 204, 301, 302, 303, 304],
         TensorObj ''TensorXf'' 6 [3, 4]])"
proof -
  let ?h = "[ArrayObj ''ArrayXf'' [100, 200, 300], ArrayObj ''ArrayXf'' [1, 2, 3, 4::int],
         TensorObj ''TensorXf'' 0 [3, 1], TensorObj ''TensorXf'' 1 [1, 4]]"
  have pe: "promote_extends no_promote"
    by (simp add: promote_extends_def no_promote_def)
  have P: "promote_step no_promote InPlace [2, 3] ?h = Inr (?h, [2, 3], ''TensorXf'')"
    by (simp add: promote_step_def obj_type_def Let_def)
  note c = tensor_inplace_update[where promote = no_promote and supp = ex_supp and fuel = "Suc 0"
      and op = 26 and slot = "SlotInt 0" and args = "[2, 3]" and h = ?h and hp = ?h and os = "[2, 3]"
      and tp = "''TensorXf''", OF pe P ex_tensor_run, THEN conjunct1]
  show ?thesis using pe P c by (intro conjI)
qed

subsection \<open>The gather index of tensor_broadcast\<close>

text \<open>
  When every extent of the common shape is positive and the operand has, along every
  dimension, the extent 1 or the common extent, the index array that
  \<open>tensor_broadcast\<close> builds holds at every position of the flattened common shape
  the offset \<open>src_offset\<close>: the index is wrapped to 0 where the extent of the operand
  is 1 and passed through elsewhere. For the shapes \<open>(3, 1)\<close> and \<open>(1, 4)\<close> the
  common shape is \<open>(3, 4)\<close>, and with addition element \<open>(i, j)\<close> of the result is the
  sum of \<open>operand0[i, 0]\<close> and \<open>operand1[0, j]\<close>.
\<close>

lemma fold_times: "fold (\<lambda>d acc. acc * d) xs a = a * prod_list xs"
  by (induction xs arbitrary: a) (auto simp: mult.assoc)

lemma broadcast_loop_offsets:
  assumes "list_all2 (\<lambda>s d. 0 < d \<and> (s = 1 \<or> s = d)) src dst"
    and "\<forall>p \<in> set ps. r p < prod_list dst"
  shows "broadcast_loop src dst (prod_list dst) (map (\<lambda>p. a p * prod_list dst + r p) ps)
           = Some (map (\<lambda>p. a p * prod_list src + src_offset src dst (r p)) ps)"
  using assms
proof (induction src dst arbitrary: a r rule: list_all2_induct)
  case Nil
  then show ?case by simp
next
  case (Cons s src d dst)
  let ?S' = "prod_list dst" and ?S = "d * prod_list dst"
  have d: "0 < d" and sd: "s = 1 \<or> s = d" using Cons.hyps(1) by auto
  have S'pos: "0 < ?S'"
    using Cons.hyps(2) by (induction rule: list_all2_induct) auto
  have rb: "\<forall>p \<in> set ps. r p < ?S" using Cons.prems by simp
  have rm: "\<forall>p \<in> set ps. r p mod ?S' < ?S'" using S'pos by simp
  have sn: "?S div d = ?S'" using d by simp
  show ?case
  proof (cases "s = 1 \<and> d \<noteq> 1")
    case True
    have idx: "map (\<lambda>k. k mod ?S' + (k div ?S) * ?S') (map (\<lambda>p. a p * ?S + r p) ps)
                 = map (\<lambda>p. a p * ?S' + r p mod ?S') ps"
      unfolding map_map o_def
    proof (rule map_cong[OF refl])
      fix p assume "p \<in> set ps"
      then have rp: "r p < ?S" using rb by simp
      have 1: "(a p * ?S + r p) mod ?S' = r p mod ?S'"
        by (metis (no_types, lifting) mod_mult_self4 mult.assoc mult.commute)
      have Spos: "?S \<noteq> 0" using d S'pos by simp
      have "(a p * ?S + r p) div ?S = a p + r p div ?S"
        using Spos by (rule div_mult_self3)
      then have 2: "(a p * ?S + r p) div ?S = a p" using rp by simp
      show "(a p * ?S + r p) mod ?S' + ((a p * ?S + r p) div ?S) * ?S' = a p * ?S' + r p mod ?S'"
        unfolding 1 2 by simp
    qed
    have ih: "broadcast_loop src dst ?S' (map (\<lambda>p. a p * ?S' + r p mod ?S') ps)
           = Some (map (\<lambda>p. a p * prod_list src + src_offset src dst (r p mod ?S')) ps)"
      by (rule Cons.IH[OF rm])
    have fin: "map (\<lambda>p. a p * prod_list src + src_offset src dst (r p mod ?S')) ps
             = map (\<lambda>p. a p * prod_list (s # src) + src_offset (s # src) (d # dst) (r p)) ps"
      using True by simp
    have "broadcast_loop (s # src) (d # dst) (prod_list (d # dst))
              (map (\<lambda>p. a p * prod_list (d # dst) + r p) ps)
            = broadcast_loop src dst ?S'
                (map (\<lambda>k. k mod ?S' + (k div ?S) * ?S') (map (\<lambda>p. a p * ?S + r p) ps))"
      using True d by (simp add: Let_def del: map_map)
    also have "\<dots> = broadcast_loop src dst ?S' (map (\<lambda>p. a p * ?S' + r p mod ?S') ps)"
      by (simp only: idx)
    also have "\<dots> = Some (map (\<lambda>p. a p * prod_list src + src_offset src dst (r p mod ?S')) ps)"
      by (rule ih)
    also have "\<dots> = Some (map (\<lambda>p. a p * prod_list (s # src)
                              + src_offset (s # src) (d # dst) (r p)) ps)"
      by (simp only: fin)
    finally show ?thesis .
  next
    case False
    then have s: "s = d" using sd by auto
    have same: "map (\<lambda>p. a p * ?S + r p) ps
                  = map (\<lambda>p. (a p * d + r p div ?S') * ?S' + r p mod ?S') ps"
    proof (rule map_cong[OF refl])
      fix p
      show "a p * ?S + r p = (a p * d + r p div ?S') * ?S' + r p mod ?S'"
        by (simp add: algebra_simps)
    qed
    have ih: "broadcast_loop src dst ?S' (map (\<lambda>p. (a p * d + r p div ?S') * ?S' + r p mod ?S') ps)
           = Some (map (\<lambda>p. (a p * d + r p div ?S') * prod_list src
                              + src_offset src dst (r p mod ?S')) ps)"
      by (rule Cons.IH[OF rm])
    have k0: "\<forall>p \<in> set ps. s = 1 \<longrightarrow> r p div ?S' = 0" using rb s by auto
    have fin: "map (\<lambda>p. (a p * d + r p div ?S') * prod_list src + src_offset src dst (r p mod ?S')) ps
             = map (\<lambda>p. a p * prod_list (s # src) + src_offset (s # src) (d # dst) (r p)) ps"
    proof (rule map_cong[OF refl])
      fix p assume "p \<in> set ps"
      then show "(a p * d + r p div ?S') * prod_list src + src_offset src dst (r p mod ?S')
             = a p * prod_list (s # src) + src_offset (s # src) (d # dst) (r p)"
        using k0 s by (auto simp: algebra_simps)
    qed
    have "broadcast_loop (s # src) (d # dst) (prod_list (d # dst))
              (map (\<lambda>p. a p * prod_list (d # dst) + r p) ps)
            = broadcast_loop src dst ?S' (map (\<lambda>p. a p * ?S + r p) ps)"
      using False d by (simp add: Let_def del: map_map)
    also have "\<dots> = broadcast_loop src dst ?S'
                        (map (\<lambda>p. (a p * d + r p div ?S') * ?S' + r p mod ?S') ps)"
      by (simp only: same)
    also have "\<dots> = Some (map (\<lambda>p. (a p * d + r p div ?S') * prod_list src
                              + src_offset src dst (r p mod ?S')) ps)"
      by (rule ih)
    also have "\<dots> = Some (map (\<lambda>p. a p * prod_list (s # src)
                              + src_offset (s # src) (d # dst) (r p)) ps)"
      by (simp only: fin)
    finally show ?thesis .
  qed
qed

lemma broadcast_index_offsets:
  assumes "list_all2 (\<lambda>s d. 0 < d \<and> (s = 1 \<or> s = d)) src dst"
  shows "broadcast_index src dst = Some (map (src_offset src dst) [0..<prod_list dst])"
proof -
  have len: "length src = length dst" using assms by (rule list_all2_lengthD)
  have "broadcast_loop src dst (prod_list dst) (map (\<lambda>p. 0 * prod_list dst + p) [0..<prod_list dst])
           = Some (map (\<lambda>p. 0 * prod_list src + src_offset src dst p) [0..<prod_list dst])"
    by (rule broadcast_loop_offsets[OF assms]) simp
  then show ?thesis
    unfolding broadcast_index_def by (simp add: Let_def len fold_times)
qed


lemma tensor_broadcast_example:
  "common_shape [[3, 1], [1, 4]] = Some [3, 4]
   \<and> broadcast_index [3, 1] [3, 4] = Some [0, 0, 0, 0, 1, 1, 1, 1, 2, 2, 2, 2]
   \<and> broadcast_index [1, 4] [3, 4] = Some [0, 1, 2, 3, 0, 1, 2, 3, 0, 1, 2, 3]
   \<and> apply_op (Suc (Suc 0)) ex_supp no_promote Normal 26 (SlotInt 0) [2, 3]
       [ArrayObj ''ArrayXf'' [100, 200, 300], ArrayObj ''ArrayXf'' [1, 2, 3, 4],
        TensorObj ''TensorXf'' 0 [3, 1], TensorObj ''TensorXf'' 1 [1, 4]]
     = Some (Ret (Returned 7)
        [ArrayObj ''ArrayXf'' [100, 200, 300], ArrayObj ''ArrayXf'' [1, 2, 3, 4],
         TensorObj ''TensorXf'' 0 [3, 1], TensorObj ''TensorXf'' 1 [1, 4],
         ArrayObj ''ArrayXf'' [100, 100, 100, 100, 200, 200, 200, 200, 300, 300, 300, 300],
         ArrayObj ''ArrayXf'' [1, 2, 3, 4, 1, 2, 3, 4, 1, 2, 3, 4],
         ArrayObj ''ArrayXf'' [101, 102, 103, 104, 201, 202, 203, 204, 301, 302, 303, 304],
         TensorObj ''TensorXf'' 6 [3, 4]])"
  by (simp add: apply_op.simps promote_step_def obj_type_def Let_def ex_supp_def no_promote_def
        apply_tensor_def tensor_array_def tensor_shape_def common_shape_def dim_extent_def to_ssize_def to_size_def
        tensor_broadcast_def broadcast_index_def gather_def upt_rec
        apply_array_def elems_def len_def inst_alloc_def finish_def fallback_loop.simps item_def
        set_item_def nested_call_def nth_append)

text \<open>
  Claim C3 at the shapes \<open>(0, 1)\<close> and \<open>(0, 4)\<close>: they are compatible, with the
  common shape \<open>(0, 4)\<close>, and the first operand differs from it; the loop of
  \<open>tensor_broadcast\<close> then divides the running size 0 by the extent 0, so no gather
  index is built and the behaviour of \<open>apply\<close> is undefined.
\<close>

theorem tensor_broadcast_zero_extent:
  "common_shape [[0, 1], [0, 4]] = Some [0, 4]
   \<and> broadcast_index [0, 1] [0, 4] = None
   \<and> apply_op (Suc (Suc 0)) ex_supp no_promote Normal 26 (SlotInt 0) [2, 3]
       [ArrayObj ''ArrayXf'' [], ArrayObj ''ArrayXf'' [],
        TensorObj ''TensorXf'' 0 [0, 1], TensorObj ''TensorXf'' 1 [0, 4]] = Some Crash"
  by (simp add: apply_op.simps promote_step_def obj_type_def Let_def ex_supp_def apply_tensor_def
        tensor_array_def tensor_shape_def common_shape_def dim_extent_def to_ssize_def to_size_def tensor_broadcast_def
        broadcast_index_def no_promote_def upt_rec)

subsection \<open>Facts about trees\<close>

lemma traverse_pair_type_mismatch:
  "py_type h1 \<noteq> py_type h2 \<Longrightarrow>
     traverse_pair op tc h1 h2 s =
       catch_pair op (py_type h1) (py_type h2) (Inl (StdException ''Mismatched input types.''))"
  by (cases h1; cases h2) auto

lemma traverse_pair_length_mismatch:
  assumes "py_type h1 = py_type h2" "sequence_items h1 = Some xs" "sequence_items h2 = Some ys"
    "length xs \<noteq> length ys"
  shows "traverse_pair op tc h1 h2 s =
       catch_pair op (py_type h1) (py_type h2)
         (Inl (StdException (''Incompatible input lengths ('' @ to_string (length xs) @ '' and '' @
                        to_string (length ys) @ '').'')))"
  using assms by (cases h1; cases h2) (auto simp: incompatible_lengths_def split: if_splits)

lemma traverse_pair_key_mismatch:
  assumes "dict_entries h1 = Some d1" "dict_entries h2 = Some d2"
    "map fst d1 \<noteq> map fst d2"
  shows "traverse_pair op tc h1 h2 s =
       catch_pair op (py_type h1) (py_type h2)
         (Inl (StdException ''Dictionaries have mismatched keys.''))"
  using assms by (cases h1; cases h2) auto

text \<open>
  Claim C7, as amended. When two values mismatch at one level (their types differ,
  they are sequences of different lengths, or they are dictionaries with different key
  sets), \<open>traverse_pair\<close> throws the mismatch exception at that level, whatever the
  callback and the state are: the callback is not invoked at or below that level. In
  particular, on two dictionaries with different keys it is never invoked. On two
  dictionaries that hold the same two keys in the same order, with array leaves as
  values, the callback is invoked on the two pairs of values stored under the same
  key, in that order, and on nothing else.
\<close>

theorem traverse_pair_structure:
  "(\<forall>what. structural_mismatch h1 h2 = Some what \<longrightarrow>
      traverse_pair op tc h1 h2 s =
        catch_pair op (py_type h1) (py_type h2) (Inl (StdException what)))
   \<and> (ka \<noteq> kb \<longrightarrow>
      traverse_pair op tc (Dict [(ka, Flat t xa), (kb, Flat t xb)])
          (Dict [(ka, Flat t ya), (kb, Flat t yb)]) s =
        catch_pair op DictT DictT
          (case catch_pair op (FlatT t) (FlatT t) (tc xa ya s) of
             Inl e \<Rightarrow> Inl e
           | Inr s' \<Rightarrow>
               (case catch_pair op (FlatT t) (FlatT t) (tc xb yb s') of
                  Inl e \<Rightarrow> Inl e
                | Inr s'' \<Rightarrow> Inr s'')))"
proof (intro conjI allI impI)
  fix what assume m: "structural_mismatch h1 h2 = Some what"
  show "traverse_pair op tc h1 h2 s =
        catch_pair op (py_type h1) (py_type h2) (Inl (StdException what))"
  proof (cases "py_type h1 = py_type h2")
    case False
    then have "what = ''Mismatched input types.''"
      using m unfolding structural_mismatch_def by (simp only: if_True simp_thms option.inject)
    then show ?thesis using traverse_pair_type_mismatch[OF False] by (simp only:)
  next
    case True
    show ?thesis
    proof (cases "sequence_items h1")
      case (Some xs)
      then obtain ys where ys: "sequence_items h2 = Some ys"
        using True by (cases h1; cases h2) (auto split: if_splits)
      then have ne: "length xs \<noteq> length ys"
        and w: "what = ''Incompatible input lengths ('' @ to_string (length xs) @ '' and '' @
                        to_string (length ys) @ '').''"
        using m True Some unfolding structural_mismatch_def by (auto split: if_splits)
      show ?thesis unfolding w
        by (rule traverse_pair_length_mismatch[OF True Some ys ne])
    next
      case None
      then have k: "(case (dict_entries h1, dict_entries h2) of
                (Some d1, Some d2) \<Rightarrow>
                  if set (map fst d1) \<noteq> set (map fst d2)
                  then Some ''Dictionaries have mismatched keys.''
                  else None
              | _ \<Rightarrow> None) = Some what"
        using m True unfolding structural_mismatch_def by (auto split: option.splits)
      then obtain d1 d2 where d: "dict_entries h1 = Some d1" "dict_entries h2 = Some d2"
        by (auto split: option.splits)
      then have ne: "set (map fst d1) \<noteq> set (map fst d2)" and w: "what = ''Dictionaries have mismatched keys.''"
        using k by (auto split: if_splits)
      have nl: "map fst d1 \<noteq> map fst d2"
      proof
        assume "map fst d1 = map fst d2"
        then have "set (map fst d1) = set (map fst d2)" by (rule arg_cong)
        then show False using ne by simp
      qed
      show ?thesis unfolding w by (rule traverse_pair_key_mismatch[OF d nl])
    qed
  qed
next
  assume a: "ka \<noteq> kb"
  show "traverse_pair op tc (Dict [(ka, Flat t xa), (kb, Flat t xb)])
          (Dict [(ka, Flat t ya), (kb, Flat t yb)]) s =
        catch_pair op DictT DictT
          (case catch_pair op (FlatT t) (FlatT t) (tc xa ya s) of
             Inl e \<Rightarrow> Inl e
           | Inr s' \<Rightarrow>
               (case catch_pair op (FlatT t) (FlatT t) (tc xb yb s') of
                  Inl e \<Rightarrow> Inl e
                | Inr s'' \<Rightarrow> Inr s''))"
    using a by (auto split: sum.splits)
qed

theorem traverse_pair_structure_witness:
  "traverse_pair ''f'' record_pair
      (Dict [(''a'', Flat ''Float'' (1::nat)), (''b'', Flat ''Float'' 2)])
      (Dict [(''a'', Flat ''Float'' 10), (''c'', Flat ''Float'' 30)]) []
    = catch_pair ''f'' DictT DictT (Inl (StdException ''Dictionaries have mismatched keys.''))
   \<and> traverse_pair ''f'' record_pair
      (Dict [(''a'', Flat ''Float'' (1::nat)), (''b'', Flat ''Float'' 2)])
      (Dict [(''a'', Flat ''Float'' 10), (''b'', Flat ''Float'' 20)]) []
    = Inr [(1, 10), (2, 20)]"
proof -
  let ?d1 = "Dict [(''a'', Flat ''Float'' (1::nat)), (''b'', Flat ''Float'' 2)]"
  let ?bad = "Dict [(''a'', Flat ''Float'' (10::nat)), (''c'', Flat ''Float'' 30)]"
  let ?d2 = "Dict [(''a'', Flat ''Float'' (10::nat)), (''b'', Flat ''Float'' 20)]"
  have m: "structural_mismatch ?d1 ?bad = Some ''Dictionaries have mismatched keys.''"
    by (simp add: structural_mismatch_def doubleton_eq_iff)
  have k: "''a'' \<noteq> ''b''" by simp
  have a: "traverse_pair ''f'' record_pair ?d1 ?bad []
    = catch_pair ''f'' DictT DictT (Inl (StdException ''Dictionaries have mismatched keys.''))"
    using traverse_pair_structure[where ?h1.0 = ?d1 and ?h2.0 = ?bad and op = "''f''" and tc = record_pair
        and s = "[]", THEN conjunct1, rule_format, OF m]
    by simp
  have "traverse_pair ''f'' record_pair ?d1 ?d2 [] =
        catch_pair ''f'' DictT DictT
          (case catch_pair ''f'' (FlatT ''Float'') (FlatT ''Float'') (record_pair 1 10 []) of
             Inl e \<Rightarrow> Inl e
           | Inr s' \<Rightarrow>
               (case catch_pair ''f'' (FlatT ''Float'') (FlatT ''Float'') (record_pair 2 20 s') of
                  Inl e \<Rightarrow> Inl e
                | Inr s'' \<Rightarrow> Inr s''))"
    by (rule traverse_pair_structure[where ka = "''a''" and kb = "''b''" and t = "''Float''"
        and xa = 1 and xb = 2 and ya = 10 and yb = 20 and op = "''f''" and tc = record_pair and s = "[]",
        THEN conjunct2, rule_format, OF k])
  then have b: "traverse_pair ''f'' record_pair ?d1 ?d2 [] = Inr [(1, 10), (2, 20)]"
    by (simp add: record_pair_def catch_pair_def)
  show ?thesis using a b by (intro conjI)
qed

text \<open>
  Two dictionaries that hold the same keys in a different order have different key
  lists, and \<open>traverse_pair\<close> reports them as mismatched without invoking the callback.
\<close>

theorem traverse_pair_key_order_counterexample:
  "traverse_pair ''f'' record_pair
      (Dict [(''a'', Flat ''Float'' (1::nat)), (''b'', Flat ''Float'' 2)])
      (Dict [(''b'', Flat ''Float'' 20), (''a'', Flat ''Float'' 10)]) []
    = catch_pair ''f'' DictT DictT (Inl (StdException ''Dictionaries have mismatched keys.''))"
  by simp

subsection \<open>transform with the identity leaf function\<close>

text \<open>
  Claim C8 at a tensor leaf of shape \<open>(2, 3)\<close>: with the identity leaf function,
  \<open>transform\<close> returns a tensor whose shape vector is the zero-initialised, empty one,
  not a tree equivalent to its input.
\<close>

theorem transform_identity_tensor:
  "transform op identity_callback (Tensor ''TensorXf'' [2, 3] a) = Inr (Tensor ''TensorXf'' [] a)"
  by (simp add: identity_callback_def catch_one_def)


text \<open>On every tree without such a tensor the identity leaf function reproduces the
  tree: containers keep their kind, length, keys and order, and other objects are
  returned as they are.\<close>

lemma transform_items_identity:
  assumes "\<And>x. x \<in> set xs \<Longrightarrow> transform op tc x = Inr x"
  shows "transform_items op tc xs = Inr xs"
  using assms by (induction xs) auto

lemma transform_array_items_identity:
  assumes "\<And>x. x \<in> set xs \<Longrightarrow> transform op tc x = Inr x" "PyNone \<notin> set xs"
  shows "transform_array_items op tc xs = Inr xs"
  using assms by (induction xs) (auto split: pytree.splits)

lemma transform_entries_identity:
  assumes "\<And>kv. kv \<in> set d \<Longrightarrow> transform op tc (snd kv) = Inr (snd kv)"
  shows "transform_entries op tc d = Inr d"
  using assms
proof (induction d)
  case Nil
  then show ?case by simp
next
  case (Cons kv d)
  obtain k v where kv: "kv = (k, v)" by (cases kv)
  have 1: "transform op tc v = Inr v" using Cons.prems[of kv] kv by simp
  have 2: "transform_entries op tc d = Inr d" using Cons by simp
  show ?case by (simp add: kv 1 2)
qed

lemma transform_identity_round_trip:
  "shapeless h \<Longrightarrow> transform op identity_callback h = Inr h"
proof (induction h)
  case (Tensor t sh a)
  then show ?case by (simp add: identity_callback_def catch_one_def)
next
  case (Nested t dyn xs)
  have "transform_array_items op identity_callback xs = Inr xs"
    by (rule transform_array_items_identity) (use Nested in auto)
  then show ?case by (simp add: identity_callback_def catch_one_def)
next
  case (Flat t a)
  then show ?case by (simp add: identity_callback_def catch_one_def)
next
  case (Tuple xs)
  have "transform_items op identity_callback xs = Inr xs"
    by (rule transform_items_identity) (use Tuple in auto)
  then show ?case by (simp add: catch_one_def)
next
  case (PyList xs)
  have "transform_items op identity_callback xs = Inr xs"
    by (rule transform_items_identity) (use PyList in auto)
  then show ?case by (simp add: catch_one_def)
next
  case (Dict d)
  have "transform_entries op identity_callback d = Inr d"
  proof (rule transform_entries_identity)
    fix kv assume "kv \<in> set d"
    moreover have "snd kv \<in> Basic_BNFs.snds kv" by (cases kv) (simp add: snds.simps)
    ultimately show "transform op identity_callback (snd kv) = Inr (snd kv)"
      using Dict by simp
  qed
  then show ?case by (simp add: catch_one_def)
next
  case (Struct t fs)
  have "transform_entries op identity_callback fs = Inr fs"
  proof (rule transform_entries_identity)
    fix kv assume "kv \<in> set fs"
    moreover have "snd kv \<in> Basic_BNFs.snds kv" by (cases kv) (simp add: snds.simps)
    ultimately show "transform op identity_callback (snd kv) = Inr (snd kv)"
      using Struct by simp
  qed
  then show ?case by (simp add: catch_one_def)
next
  case PyNone
  then show ?case by (simp add: catch_one_def)
next
  case (Opaque t a)
  then show ?case by (simp add: catch_one_def)
qed



end
